theory Spec2Isabelle
  imports Complex_Main "HOL-Library.AList" "HOL-Library.Multiset"
begin

section \<open>JavaScript helpers shared by the models\<close>

text \<open>
  \<open>[...new Set(xs)]\<close>: a JavaScript \<open>Set\<close> keeps its elements in insertion order and
  ignores an element it already holds, so spreading it back gives the first
  occurrences of \<open>xs\<close> in their original order.
\<close>

definition set_add :: "'a list \<Rightarrow> 'a \<Rightarrow> 'a list" where
  "set_add acc x = (if x \<in> set acc then acc else acc @ [x])"

definition set_spread :: "'a list \<Rightarrow> 'a list" where
  "set_spread xs = foldl set_add [] xs"

text \<open>\<open>xs || []\<close> for an optional array (an array, even an empty one, is truthy).\<close>

definition or_empty :: "'a list option \<Rightarrow> 'a list" where
  "or_empty xs = (case xs of None \<Rightarrow> [] | Some ys \<Rightarrow> ys)"

text \<open>\<open>s || ''\<close> for an optional string.\<close>

definition or_blank :: "string option \<Rightarrow> string" where
  "or_blank s = (case s of None \<Rightarrow> [] | Some t \<Rightarrow> t)"

text \<open>Truthiness of an optional string: \<open>undefined\<close> and \<open>''\<close> are falsy.\<close>

definition truthy_str :: "string option \<Rightarrow> bool" where
  "truthy_str s = (case s of None \<Rightarrow> False | Some t \<Rightarrow> t \<noteq> [])"

text \<open>
  A JavaScript number is an IEEE 754 double. The code that computes with numbers is
  modelled over any type \<open>'n\<close> of numbers, and the operations of the language on them
  are taken as they are, as the fields of a record: \<open>js_num k\<close> is the number that the
  whole number \<open>k\<close> denotes (a literal, a length, a time value), \<open>js_NaN\<close> is \<open>NaN\<close>,
  \<open>js_isNaN\<close> tells \<open>NaN\<close> from the other numbers, \<open>js_truthy\<close> is the truthiness of a
  number (\<open>0\<close>, \<open>-0\<close> and \<open>NaN\<close> are falsy), \<open>js_add\<close>, \<open>js_sub\<close>, \<open>js_mul\<close> and \<open>js_div\<close>
  are \<open>+\<close>, \<open>-\<close>, \<open>*\<close> and \<open>/\<close>, \<open>js_max\<close> is \<open>Math.max\<close> and \<open>js_lt\<close> is \<open><\<close>. Nothing is
  assumed about them: not that they are exact, nor any law of arithmetic.
\<close>

record 'n js_numbers =
  js_num :: "int \<Rightarrow> 'n"
  js_NaN :: "'n"
  js_isNaN :: "'n \<Rightarrow> bool"
  js_truthy :: "'n \<Rightarrow> bool"
  js_add :: "'n \<Rightarrow> 'n \<Rightarrow> 'n"
  js_sub :: "'n \<Rightarrow> 'n \<Rightarrow> 'n"
  js_mul :: "'n \<Rightarrow> 'n \<Rightarrow> 'n"
  js_div :: "'n \<Rightarrow> 'n \<Rightarrow> 'n"
  js_max :: "'n \<Rightarrow> 'n \<Rightarrow> 'n"
  js_lt :: "'n \<Rightarrow> 'n \<Rightarrow> bool"

text \<open>\<open>n || 0\<close> for an optional number: \<open>undefined\<close> and a falsy number give \<open>0\<close>.\<close>

definition or_zero :: "'n js_numbers \<Rightarrow> 'n option \<Rightarrow> 'n" where
  "or_zero ops n =
     (case n of
        None \<Rightarrow> js_num ops 0
      | Some k \<Rightarrow> if js_truthy ops k then k else js_num ops 0)"

text \<open>
  Stable insertion sort on a relation "may stand ahead of": every element is placed
  in front of the first one that it may stand ahead of.
\<close>

fun insert_before :: "('a \<Rightarrow> 'a \<Rightarrow> bool) \<Rightarrow> 'a \<Rightarrow> 'a list \<Rightarrow> 'a list" where
  "insert_before ahead x [] = [x]"
| "insert_before ahead x (y # ys) =
     (if ahead x y then x # y # ys else y # insert_before ahead x ys)"

definition stable_sort :: "('a \<Rightarrow> 'a \<Rightarrow> bool) \<Rightarrow> 'a list \<Rightarrow> 'a list" where
  "stable_sort ahead xs = foldr (insert_before ahead) xs []"

text \<open>
  \<open>Array.prototype.sort(comparefn)\<close>. The sort reads the number that the comparator
  returns only through its sign, and the language tells \<open>NaN\<close> apart.
\<close>

datatype sign = Negative | Zero | Positive | NotANumber

definition sign_of :: "'n js_numbers \<Rightarrow> 'n \<Rightarrow> sign" where
  "sign_of ops v =
     (if js_lt ops v (js_num ops 0) then Negative
      else if js_lt ops (js_num ops 0) v then Positive
      else if js_isNaN ops v then NotANumber
      else Zero)"

text \<open>
  ECMAScript, "consistent comparator" for the elements of the array: the comparator
  returns the same value whenever it is given the same pair (a function does), that
  value is not \<open>NaN\<close>, \<open>a =\<^sub>C\<^sub>F a\<close>, \<open>a =\<^sub>C\<^sub>F b\<close> implies \<open>b =\<^sub>C\<^sub>F a\<close>, and \<open>=\<^sub>C\<^sub>F\<close>, \<open><\<^sub>C\<^sub>F\<close>
  and \<open>>\<^sub>C\<^sub>F\<close> are transitive.
\<close>

definition consistent :: "('a \<Rightarrow> 'a \<Rightarrow> sign) \<Rightarrow> 'a list \<Rightarrow> bool" where
  "consistent comparefn xs \<longleftrightarrow>
     (\<forall>a \<in> set xs. \<forall>b \<in> set xs. comparefn a b \<noteq> NotANumber) \<and>
     (\<forall>a \<in> set xs. comparefn a a = Zero) \<and>
     (\<forall>a \<in> set xs. \<forall>b \<in> set xs. comparefn a b = Zero \<longrightarrow> comparefn b a = Zero) \<and>
     (\<forall>a \<in> set xs. \<forall>b \<in> set xs. \<forall>c \<in> set xs.
        (comparefn a b = Zero \<and> comparefn b c = Zero \<longrightarrow> comparefn a c = Zero) \<and>
        (comparefn a b = Negative \<and> comparefn b c = Negative \<longrightarrow> comparefn a c = Negative) \<and>
        (comparefn a b = Positive \<and> comparefn b c = Positive \<longrightarrow> comparefn a c = Positive))"

text \<open>
  With a consistent comparator the language fixes the result: the elements in
  ascending order of the comparator, equal ones in their original order (the sort is
  stable), which is what the stable insertion sort gives. Otherwise "the sort order is
  implementation-defined": the result holds the same elements, in an order that the
  language does not fix.
\<close>

datatype 'a sorted = InOrder "'a list" | ImplementationDefined "'a list"

definition js_sort :: "('a \<Rightarrow> 'a \<Rightarrow> sign) \<Rightarrow> 'a list \<Rightarrow> 'a sorted" where
  "js_sort comparefn xs =
     (if consistent comparefn xs
      then InOrder (stable_sort (\<lambda>x y. comparefn x y \<noteq> Positive) xs)
      else ImplementationDefined xs)"


section \<open>KoreanBeautyTracker.mergeAndDedupe (proof-of-concept.md)\<close>

text \<open>
  \<open>Partial<BeautyTrend>\<close>: every field is optional. The fields that the scrapers set and
  that \<open>mergeAndDedupe\<close> reads or rewrites are listed; \<open>summary\<close> and \<open>rawContent\<close> stand
  for the fields that the object spread \<open>...existing\<close> carries over untouched.
  \<open>mentions\<close> is a JavaScript number.
\<close>

record 'n BeautyTrend =
  productName :: "string option"
  images :: "string list option"
  mentions :: "'n option"
  platforms :: "string list option"
  summary :: "string option"
  rawContent :: "string option"

text \<open>The object literal built when the key is already in \<open>productMap\<close>.\<close>

definition merge_trend :: "'n js_numbers \<Rightarrow> 'n BeautyTrend \<Rightarrow> 'n BeautyTrend \<Rightarrow> 'n BeautyTrend" where
  "merge_trend ops existing item =
     existing
       \<lparr> platforms := Some (set_spread (or_empty (platforms existing) @ or_empty (platforms item))),
         mentions := Some (js_add ops (or_zero ops (mentions existing)) (or_zero ops (mentions item))),
         images := Some (set_spread (or_empty (images existing) @ or_empty (images item))) \<rparr>"

text \<open>
  The body of \<open>items.forEach\<close>. \<open>productMap\<close> is a \<open>Map\<close>: an association list in
  insertion order, where \<open>set\<close> on a present key replaces the value in place and on an
  absent key appends (\<open>AList.update\<close>). \<open>String.prototype.toLowerCase\<close> follows the
  Unicode case mappings; it is taken as the parameter \<open>toLowerCase\<close>.
\<close>

definition dedupe_step ::
  "'n js_numbers \<Rightarrow> (string \<Rightarrow> string) \<Rightarrow> (string \<times> 'n BeautyTrend) list \<Rightarrow> 'n BeautyTrend
     \<Rightarrow> (string \<times> 'n BeautyTrend) list" where
  "dedupe_step ops toLowerCase productMap item =
     (if \<not> truthy_str (productName item) then productMap
      else
        let key = toLowerCase (or_blank (productName item)) in
        (case map_of productMap key of
           Some existing \<Rightarrow> AList.update key (merge_trend ops existing item) productMap
         | None \<Rightarrow> AList.update key item productMap))"

definition mergeAndDedupe ::
  "'n js_numbers \<Rightarrow> (string \<Rightarrow> string) \<Rightarrow> 'n BeautyTrend list \<Rightarrow> 'n BeautyTrend list" where
  "mergeAndDedupe ops toLowerCase items = map snd (foldl (dedupe_step ops toLowerCase) [] items)"


section \<open>ResultProcessor (result-processor.ts)\<close>

text \<open>
  The processor works on untyped objects (\<open>any[]\<close>). The record lists the properties
  that the processor reads or writes; each may be absent. \<open>sources\<close> is filled by
  \<open>push(duplicate.source)\<close>, so its elements may themselves be \<open>undefined\<close>.
  A date is a time value, a whole number of milliseconds since the epoch of magnitude
  at most \<open>8.64e15\<close> (a present date is truthy); \<open>relevanceScore\<close> and \<open>mentions\<close> are
  JavaScript numbers, and \<open>media\<close> lists the URLs of the media entries. \<open>r_images\<close> and
  \<open>r_mentions\<close> are the properties \<open>images\<close> and \<open>mentions\<close>.
\<close>

record 'n raw_result =
  title :: "string option"
  content :: "string option"
  url :: "string option"
  screenshot :: "string option"
  r_images :: "string list option"
  source :: "string option"
  sources :: "string option list option"
  relevanceScore :: "'n option"
  media :: "string list option"
  publishedDate :: "int option"
  enrichedAt :: "int option"
  r_mentions :: "'n option"

subsection \<open>deduplicateResults\<close>

definition calculateSimilarity :: "string \<Rightarrow> string \<Rightarrow> rat" where
  "calculateSimilarity hash1 hash2 = (if hash1 = hash2 then 1 else 0)"

text \<open>
  \<open>mergeResults(existing, duplicate)\<close> mutates \<open>existing\<close>; the model returns the
  mutated object. \<open>duplicate.content?.length > existing.content.length\<close> is false when
  \<open>duplicate.content\<close> is \<open>undefined\<close>.
\<close>

definition mergeResults :: "'n raw_result \<Rightarrow> 'n raw_result \<Rightarrow> 'n raw_result" where
  "mergeResults existing duplicate =
     (let e1 = (case r_images duplicate of
                  Some imgs \<Rightarrow> existing\<lparr>r_images := Some (or_empty (r_images existing) @ imgs)\<rparr>
                | None \<Rightarrow> existing);
          e2 = e1\<lparr>sources := Some (or_empty (sources e1) @ [source duplicate])\<rparr>
      in if \<not> truthy_str (content e2) \<or>
            (case content duplicate of
               None \<Rightarrow> False
             | Some d \<Rightarrow> length d > length (or_blank (content e2)))
         then e2\<lparr>content := content duplicate\<rparr>
         else e2)"

text \<open>
  The hash is \<open>createHash('md5')\<close> of Node's \<open>crypto\<close> module, taken as the parameter
  \<open>md5\<close>. \<open>contentHashes\<close> maps a hash to an object, and \<open>unique\<close> holds the same
  objects: a merge through the map is seen through \<open>unique\<close>. The model keeps the
  objects in \<open>unique\<close> and lets the map hold their positions there.
\<close>

definition contentHash :: "(string \<Rightarrow> string) \<Rightarrow> 'n raw_result \<Rightarrow> string" where
  "contentHash md5 result = md5 (or_blank (title result) @ or_blank (content result))"

definition dedup_step ::
  "(string \<Rightarrow> string) \<Rightarrow> (string \<times> nat) list \<times> 'n raw_result list \<Rightarrow> 'n raw_result
     \<Rightarrow> (string \<times> nat) list \<times> 'n raw_result list" where
  "dedup_step md5 st result =
     (let contentHashes = fst st; unique = snd st; hash = contentHash md5 result in
      case find (\<lambda>(existingHash, i). calculateSimilarity hash existingHash > 85 / 100)
             contentHashes of
        Some (existingHash, i) \<Rightarrow>
          (contentHashes, unique[i := mergeResults (unique ! i) result])
      | None \<Rightarrow>
          (AList.update hash (length unique) contentHashes, unique @ [result]))"

definition deduplicateResults ::
  "(string \<Rightarrow> string) \<Rightarrow> 'n raw_result list \<Rightarrow> 'n raw_result list" where
  "deduplicateResults md5 results = snd (foldl (dedup_step md5) ([], []) results)"

subsection \<open>rankResults\<close>

text \<open>
  \<open>new Date(a.publishedDate || a.enrichedAt).getTime()\<close>: the time value of the date,
  \<open>NaN\<close> when both properties are missing.
\<close>

definition item_time :: "'n js_numbers \<Rightarrow> 'n raw_result \<Rightarrow> 'n" where
  "item_time ops a =
     (case publishedDate a of
        Some d \<Rightarrow> js_num ops d
      | None \<Rightarrow> (case enrichedAt a of Some d \<Rightarrow> js_num ops d | None \<Rightarrow> js_NaN ops))"

text \<open>\<open>1000 * 60 * 60 * 24\<close>.\<close>

definition ms_per_day :: "'n js_numbers \<Rightarrow> 'n" where
  "ms_per_day ops =
     js_mul ops (js_mul ops (js_mul ops (js_num ops 1000) (js_num ops 60)) (js_num ops 60))
       (js_num ops 24)"

text \<open>
  The score that the comparator accumulates for one item, with the additions in the
  order of the code. \<open>nowTime\<close> is the reading of \<open>Date.now()\<close> in this call of the
  comparator.
\<close>

definition rank_score :: "'n js_numbers \<Rightarrow> int \<Rightarrow> 'n raw_result \<Rightarrow> 'n" where
  "rank_score ops nowTime a =
     (let s0 = js_num ops 0;
          s1 = js_add ops s0 (js_mul ops (or_zero ops (relevanceScore a)) (js_num ops 10));
          s2 = js_add ops s1
                 (js_mul ops (js_num ops (int (length (or_empty (media a))))) (js_num ops 5));
          s3 = js_add ops s2
                 (js_max ops (js_num ops 0)
                    (js_sub ops (js_num ops 10)
                       (js_div ops (js_sub ops (js_num ops nowTime) (item_time ops a))
                          (ms_per_day ops))))
      in if source a = Some ''exa'' \<or> source a = Some ''firecrawl''
         then js_add ops s3 (js_num ops 3)
         else s3)"

text \<open>The comparator: \<open>scoreB - scoreA\<close>.\<close>

definition rank_compare :: "'n js_numbers \<Rightarrow> int \<Rightarrow> 'n raw_result \<Rightarrow> 'n raw_result \<Rightarrow> 'n" where
  "rank_compare ops nowTime a b = js_sub ops (rank_score ops nowTime b) (rank_score ops nowTime a)"

text \<open>
  The comparator reads \<open>Date.now()\<close> every time it is called. \<open>Steady t\<close>: every reading
  during the sort is \<open>t\<close>. \<open>Ticking\<close>: the readings differ, so the comparator need not
  return the same value for the same pair; it is then not a consistent comparator.
\<close>

datatype clock = Steady int | Ticking

definition rankResults :: "'n js_numbers \<Rightarrow> clock \<Rightarrow> 'n raw_result list \<Rightarrow> 'n raw_result sorted" where
  "rankResults ops clock results =
     (case clock of
        Steady nowTime \<Rightarrow> js_sort (\<lambda>a b. sign_of ops (rank_compare ops nowTime a b)) results
      | Ticking \<Rightarrow> ImplementationDefined results)"


section \<open>SmartRouter.processResults (smart-router.ts)\<close>

text \<open>The \<open>filter\<close> with the \<open>seen\<close> set: the first result of every URL is kept.\<close>

fun unique_by_url :: "string option list \<Rightarrow> 'n raw_result list \<Rightarrow> 'n raw_result list" where
  "unique_by_url seen [] = []"
| "unique_by_url seen (r # rs) =
     (if url r \<in> set seen then unique_by_url seen rs
      else r # unique_by_url (seen @ [url r]) rs)"

definition hasMedia :: "'n raw_result \<Rightarrow> nat" where
  "hasMedia a = length (or_empty (r_images a)) + (if truthy_str (screenshot a) then 1 else 0)"

text \<open>\<open>new Date(a.publishedDate || 0).getTime()\<close>.\<close>

definition date_or_epoch :: "'n raw_result \<Rightarrow> int" where
  "date_or_epoch a = (case publishedDate a of Some d \<Rightarrow> d | None \<Rightarrow> 0)"

text \<open>
  The comparator returns \<open>bHasMedia - aHasMedia\<close> or \<open>bDate - aDate\<close>. Both are
  differences of whole numbers that a double holds exactly (a count of at most \<open>2\<^sup>3\<^sup>2\<close>, a
  time value): rounding changes neither the sign of such a difference nor whether it
  is \<open>0\<close>, and it is never \<open>NaN\<close>. The model gives the sign.
\<close>

definition sign_of_difference :: "int \<Rightarrow> int \<Rightarrow> sign" where
  "sign_of_difference b a = (if b < a then Negative else if a < b then Positive else Zero)"

definition process_compare :: "'n raw_result \<Rightarrow> 'n raw_result \<Rightarrow> sign" where
  "process_compare a b =
     (if hasMedia a \<noteq> hasMedia b then sign_of_difference (int (hasMedia b)) (int (hasMedia a))
      else sign_of_difference (date_or_epoch b) (date_or_epoch a))"

definition processResults :: "'n raw_result list \<Rightarrow> 'n raw_result sorted" where
  "processResults results = js_sort process_compare (unique_by_url [] results)"


section \<open>JavaScript values of the engine\<close>

text \<open>
  The engine passes untyped values around (the output of \<open>JSON.parse\<close>, request bodies,
  \<open>JSONB\<close> columns), so its objects are JSON values. An object is the list of its own
  properties, each key once. \<open>undefined\<close> is \<open>None\<close> of \<open>json option\<close>.
\<close>

datatype json =
    JNull
  | JBool bool
  | JNum rat
  | JStr string
  | JArr "json list"
  | JObj "(string \<times> json) list"

text \<open>
  A thrown value is an \<open>Error\<close> instance with its message, or some other value (the
  error object of a database response may be either).
\<close>

datatype thrown = JsError string | OtherValue

datatype 'a outcome = Returns 'a | Throws thrown

text \<open>\<open>error instanceof Error ? error.message : fallback\<close>\<close>

definition message_or :: "thrown \<Rightarrow> string \<Rightarrow> string" where
  "message_or e fallback = (case e of JsError m \<Rightarrow> m | OtherValue \<Rightarrow> fallback)"

fun truthy :: "json \<Rightarrow> bool" where
  "truthy JNull = False"
| "truthy (JBool b) = b"
| "truthy (JNum x) = (x \<noteq> 0)"
| "truthy (JStr s) = (s \<noteq> [])"
| "truthy (JArr xs) = True"
| "truthy (JObj kvs) = True"

definition truthy_opt :: "json option \<Rightarrow> bool" where
  "truthy_opt v = (case v of None \<Rightarrow> False | Some w \<Rightarrow> truthy w)"

text \<open>\<open>a || b\<close>\<close>

definition or_else :: "json option \<Rightarrow> json option \<Rightarrow> json option" where
  "or_else a b = (if truthy_opt a then a else b)"

text \<open>
  \<open>v.key\<close> for a value \<open>v\<close> other than \<open>null\<close> and a key that is no built-in property
  of strings and arrays (on \<open>null\<close> the read throws; the callers test for it).
\<close>

fun field :: "json \<Rightarrow> string \<Rightarrow> json option" where
  "field (JObj kvs) key = map_of kvs key"
| "field v key = None"

text \<open>An object literal; a property whose value is \<open>undefined\<close> is left out.\<close>

definition obj :: "(string \<times> json option) list \<Rightarrow> json" where
  "obj kvs = JObj (List.map_filter (\<lambda>(k, v). map_option (Pair k) v) kvs)"

text \<open>\<open>v.length\<close> for a value other than \<open>null\<close>.\<close>

fun js_length :: "json \<Rightarrow> json option" where
  "js_length (JArr xs) = Some (JNum (of_nat (length xs)))"
| "js_length (JStr s) = Some (JNum (of_nat (length s)))"
| "js_length (JObj kvs) = map_of kvs ''length''"
| "js_length v = None"

text \<open>
  \<open>v > 0\<close>. Numbers, booleans, \<open>null\<close> and \<open>undefined\<close> compare as the language says;
  for a string, an array or an object the conversion to a number is the parameter
  \<open>toNumber\<close> (\<open>None\<close> is \<open>NaN\<close>).
\<close>

definition gt_zero :: "(json \<Rightarrow> rat option) \<Rightarrow> json option \<Rightarrow> bool" where
  "gt_zero toNumber v =
     (case v of
        None \<Rightarrow> False
      | Some JNull \<Rightarrow> False
      | Some (JBool b) \<Rightarrow> b
      | Some (JNum x) \<Rightarrow> x > 0
      | Some w \<Rightarrow> (case toNumber w of None \<Rightarrow> False | Some x \<Rightarrow> x > 0))"

text \<open>\<open>v.slice(0, n)\<close>: defined on strings and arrays, a \<open>TypeError\<close> elsewhere.\<close>

fun js_slice :: "nat \<Rightarrow> json \<Rightarrow> json outcome" where
  "js_slice n (JStr s) = Returns (JStr (take n s))"
| "js_slice n (JArr xs) = Returns (JArr (take n xs))"
| "js_slice n v = Throws (JsError ''TypeError: slice is not a function'')"

text \<open>The values that \<open>for (const query of queries)\<close> runs through.\<close>

fun iterate :: "json \<Rightarrow> json list outcome" where
  "iterate (JArr xs) = Returns xs"
| "iterate (JStr s) = Returns (map (\<lambda>c. JStr [c]) s)"
| "iterate v = Throws (JsError ''TypeError: queries is not iterable'')"


section \<open>External capabilities\<close>

text \<open>What \<open>openai.chat.completions.create\<close> does: it throws, or answers with a content.\<close>

datatype completion = CompletionFails thrown | Content "string option"

text \<open>An item of the Firecrawl client's search response, and the response.\<close>

record fc_item =
  fi_title :: "string option"
  fi_url :: "string option"
  fi_markdown :: "string option"
  fi_screenshot :: "string option"
  fi_score :: "rat option"

datatype search_response = SearchFails thrown | SearchData "fc_item list option"

record fc_page =
  fp_title :: "string option"
  fp_markdown :: "string option"
  fp_screenshot :: "string option"
  fp_metadata :: "json option"

datatype scrape_response = ScrapeFails thrown | ScrapeData "fc_page option"

text \<open>
  The Supabase calls of the engine. A call may be disturbed: its promise rejects, or it
  answers \<open>{ data: null, error }\<close>; in both cases the table is left as it was.
\<close>

datatype db_call =
    InsertTracker | SelectTracker | InsertRun | InsertResults | UpdateRun
  | UpdateTracker | SelectLatestRun | SelectResults | SelectPublicTrackers

datatype db_fault = Rejects thrown | Responds thrown

text \<open>
  What one operation meets outside the program: the clock, the fault on each kind of
  database call, the error object that \<open>.single()\<close> answers with, the completions for
  \<open>parsePrompt\<close> (by prompt) and for \<open>enrichResults\<close> (by prompt and items),
  \<open>JSON.parse\<close> (\<open>None\<close> is a \<open>SyntaxError\<close>), the conversion to a number, and the
  Firecrawl client (searches by the number of searches made earlier and the query).
\<close>

record env =
  now :: nat
  db_fault :: "db_call \<Rightarrow> db_fault option"
  single_error :: thrown
  parse_completion :: "json \<Rightarrow> completion"
  enrich_completion :: "json \<Rightarrow> json list \<Rightarrow> completion"
  JSON_parse :: "string \<Rightarrow> json option"
  toNumber :: "json \<Rightarrow> rat option"
  client_search :: "nat \<Rightarrow> json \<Rightarrow> search_response"
  client_scrape :: "string \<Rightarrow> scrape_response"


section \<open>The database\<close>

text \<open>
  The three tables of the schema. A row holds the values as the engine sends them
  (untyped ones as JSON values) and the columns that the database fills in; type
  conversion and constraint checks of the database appear only as the faults that the
  environment may put on a call. Identifiers are natural numbers, times are
  milliseconds, and every clock reading of one operation is \<open>now\<close>.
\<close>

datatype run_status = Pending | Running | Completed | Failed

record tracker_row =
  t_id :: nat
  t_name :: "json option"
  t_description :: "json option"
  t_prompt :: json
  t_config :: "json option"
  t_sources :: "json option"
  t_is_public :: "bool option"
  t_created_at :: nat
  t_last_run_at :: "nat option"

record run_row =
  run_id :: nat
  run_tracker_id :: nat
  run_status :: run_status
  run_error :: "string option"
  run_metadata :: "json option"
  run_started_at :: nat
  run_completed_at :: "nat option"

record result_row =
  res_run_id :: nat
  res_tracker_id :: nat
  res_title :: "json option"
  res_description :: "json option"
  res_url :: "json option"
  res_images :: "json option"
  res_source :: "json option"
  res_score :: "json option"
  res_metadata :: "json option"

record db =
  trackers :: "tracker_row list"
  tracker_runs :: "run_row list"
  tracker_results :: "result_row list"

text \<open>What a Supabase call resolves to.\<close>

record 'a response =
  data :: "'a option"
  error :: "thrown option"

text \<open>\<open>uuid_generate_v4()\<close>: an identifier that no row of the table has.\<close>

definition fresh_id :: "nat list \<Rightarrow> nat" where
  "fresh_id ids = Suc (foldr max ids 0)"

text \<open>\<open>.single()\<close>: exactly one row, or an error.\<close>

definition single :: "env \<Rightarrow> 'a list \<Rightarrow> 'a response" where
  "single e rows =
     (case rows of
        [r] \<Rightarrow> \<lparr>data = Some r, error = None\<rparr>
      | _ \<Rightarrow> \<lparr>data = None, error = Some (single_error e)\<rparr>)"

text \<open>
  A call against the database: a rejected promise, an error response, or the query
  \<open>run\<close> on the tables.
\<close>

definition db_request ::
  "env \<Rightarrow> db_call \<Rightarrow> db \<Rightarrow> (db \<Rightarrow> 'a response \<times> db) \<Rightarrow> 'a response outcome \<times> db" where
  "db_request e call d run =
     (case db_fault e call of
        Some (Rejects x) \<Rightarrow> (Throws x, d)
      | Some (Responds x) \<Rightarrow> (Returns \<lparr>data = None, error = Some x\<rparr>, d)
      | None \<Rightarrow> (Returns (fst (run d)), snd (run d)))"

text \<open>
  \<open>ORDER BY\<close>, on the relation "may stand ahead of". The order of rows that tie is not
  fixed by SQL; the model keeps the table order.
\<close>

definition order_by :: "('a \<Rightarrow> 'a \<Rightarrow> bool) \<Rightarrow> 'a list \<Rightarrow> 'a list" where
  "order_by ahead rows = stable_sort ahead rows"

text \<open>
  \<open>score\<close> is a \<open>NUMERIC\<close> column: a stored score is a number or \<open>NULL\<close>. Under
  \<open>ORDER BY score DESC\<close> PostgreSQL puts \<open>NULL\<close> first.
\<close>

definition score_of :: "result_row \<Rightarrow> rat option" where
  "score_of r = (case res_score r of Some (JNum x) \<Rightarrow> Some x | _ \<Rightarrow> None)"

definition score_desc :: "result_row \<Rightarrow> result_row \<Rightarrow> bool" where
  "score_desc a b =
     (case score_of a of
        None \<Rightarrow> True
      | Some x \<Rightarrow> (case score_of b of None \<Rightarrow> False | Some y \<Rightarrow> x \<ge> y))"


section \<open>Results of the public operations\<close>

text \<open>
  Every public operation answers \<open>{ success: true, ... }\<close> or
  \<open>{ success: false, error }\<close>.
\<close>

datatype 'a result = Success 'a | Failure string

definition success :: "'a result \<Rightarrow> bool" where
  "success r = (case r of Success v \<Rightarrow> True | Failure m \<Rightarrow> False)"

text \<open>Sequencing of steps that may throw, and \<open>try { ... } catch (error) { ... }\<close>.\<close>

definition and_then :: "'a outcome \<Rightarrow> ('a \<Rightarrow> 'b outcome) \<Rightarrow> 'b outcome" where
  "and_then m f = (case m of Throws x \<Rightarrow> Throws x | Returns v \<Rightarrow> f v)"

definition try_catch :: "'a outcome \<Rightarrow> (thrown \<Rightarrow> 'a outcome) \<Rightarrow> 'a outcome" where
  "try_catch body handler = (case body of Throws x \<Rightarrow> handler x | Returns v \<Rightarrow> Returns v)"

text \<open>The same for a body that also changes the database: the changes made stay.\<close>

definition try_catch_db ::
  "'a outcome \<times> db \<Rightarrow> (thrown \<Rightarrow> 'a outcome) \<Rightarrow> 'a outcome \<times> db" where
  "try_catch_db body handler = (try_catch (fst body) handler, snd body)"


section \<open>FirecrawlService (firecrawl.ts)\<close>

record found_item =
  it_title :: "string option"
  it_url :: "string option"
  it_content :: "string option"
  it_screenshot :: "string option"
  it_score :: "rat option"

record scraped =
  sc_title :: "string option"
  sc_content :: "string option"
  sc_screenshot :: "string option"
  sc_metadata :: "json option"
  sc_url :: string

definition scrapeUrl_body :: "env \<Rightarrow> string \<Rightarrow> scraped result outcome" where
  "scrapeUrl_body e u =
     (case client_scrape e u of
        ScrapeFails x \<Rightarrow> Throws x
      | ScrapeData page \<Rightarrow>
          Returns (Success
            \<lparr> sc_title = Option.bind page fp_title,
              sc_content = Option.bind page fp_markdown,
              sc_screenshot = Option.bind page fp_screenshot,
              sc_metadata = Option.bind page fp_metadata,
              sc_url = u \<rparr>))"

definition scrapeUrl :: "env \<Rightarrow> string \<Rightarrow> scraped result outcome" where
  "scrapeUrl e u =
     try_catch (scrapeUrl_body e u)
       (\<lambda>x. Returns (Failure (message_or x ''Failed to scrape URL'')))"

text \<open>
  \<open>search(query, limit)\<close>; \<open>n\<close> counts the searches made earlier, so that the
  client may answer the same query differently.
\<close>

definition search_body :: "env \<Rightarrow> nat \<Rightarrow> json \<Rightarrow> found_item list result outcome" where
  "search_body e n query =
     (case client_search e n query of
        SearchFails x \<Rightarrow> Throws x
      | SearchData items \<Rightarrow>
          Returns (Success
            (map (\<lambda>item.
                   \<lparr> it_title = fi_title item, it_url = fi_url item,
                     it_content = fi_markdown item, it_screenshot = fi_screenshot item,
                     it_score = fi_score item \<rparr>)
               (or_empty items))))"

definition search :: "env \<Rightarrow> nat \<Rightarrow> json \<Rightarrow> found_item list result outcome" where
  "search e n query =
     try_catch (search_body e n query)
       (\<lambda>x. Returns (Failure (message_or x ''Search failed'')))"


section \<open>TrackerEngine (engine.ts)\<close>

record TrackerConfig =
  c_name :: "json option"
  c_prompt :: json
  c_description :: "json option"
  c_isPublic :: "bool option"

subsection \<open>parsePrompt\<close>

definition parsePrompt_fallback :: "json \<Rightarrow> json outcome" where
  "parsePrompt_fallback prompt =
     and_then (js_slice 50 prompt) (\<lambda>short.
       Returns (obj [(''name'', Some short), (''description'', Some prompt),
                     (''sources'', Some (JArr [JStr ''web''])),
                     (''queries'', Some (JArr [prompt]))]))"

definition parsePrompt :: "env \<Rightarrow> json \<Rightarrow> json outcome" where
  "parsePrompt e prompt =
     try_catch
       (case parse_completion e prompt of
          CompletionFails x \<Rightarrow> Throws x
        | Content c \<Rightarrow>
            (case JSON_parse e (if truthy_str c then or_blank c else ''{}'') of
               None \<Rightarrow> Throws (JsError ''SyntaxError'')
             | Some v \<Rightarrow> Returns v))
       (\<lambda>x. parsePrompt_fallback prompt)"

subsection \<open>createTracker\<close>

text \<open>
  \<open>.insert({ ... }).select().single()\<close>: the payload is a row whose \<open>id\<close> and
  \<open>created_at\<close> the database fills in.
\<close>

definition insert_tracker :: "env \<Rightarrow> tracker_row \<Rightarrow> db \<Rightarrow> tracker_row response \<times> db" where
  "insert_tracker e payload d =
     (let row = payload\<lparr>t_id := fresh_id (map t_id (trackers d)), t_created_at := now e\<rparr>
      in (\<lparr>data = Some row, error = None\<rparr>, d\<lparr>trackers := trackers d @ [row]\<rparr>))"

definition createTracker_body ::
  "env \<Rightarrow> db \<Rightarrow> TrackerConfig \<Rightarrow> tracker_row option result outcome \<times> db" where
  "createTracker_body e d config =
     (case parsePrompt e (c_prompt config) of
        Throws x \<Rightarrow> (Throws x, d)
      | Returns parsed \<Rightarrow>
          if parsed = JNull
          then (Throws (JsError ''TypeError: Cannot read properties of null''), d)
          else
            let payload =
                  \<lparr> t_id = 0,
                    t_name = or_else (c_name config) (field parsed ''name''),
                    t_description = or_else (c_description config) (field parsed ''description''),
                    t_prompt = c_prompt config,
                    t_config = Some (obj [(''queries'', field parsed ''queries''),
                                          (''platforms'', field parsed ''sources'')]),
                    t_sources = field parsed ''sources'',
                    t_is_public = Some (if c_isPublic config = Some True then True else True),
                    t_created_at = 0,
                    t_last_run_at = None \<rparr>;
                answer = db_request e InsertTracker d (insert_tracker e payload)
            in (case fst answer of
                  Throws x \<Rightarrow> (Throws x, snd answer)
                | Returns resp \<Rightarrow>
                    (case error resp of
                       Some x \<Rightarrow> (Throws x, snd answer)
                     | None \<Rightarrow> (Returns (Success (data resp)), snd answer))))"

definition createTracker ::
  "env \<Rightarrow> db \<Rightarrow> TrackerConfig \<Rightarrow> tracker_row option result outcome \<times> db" where
  "createTracker e d config =
     try_catch_db (createTracker_body e d config)
       (\<lambda>x. Returns (Failure (message_or x ''Failed to create tracker'')))"


subsection \<open>searchWithFirecrawl\<close>

text \<open>
  The \<open>TrackerResult\<close> object built from a found item. \<open>!result.data\<close> never holds for
  a successful \<open>search\<close>, whose \<open>data\<close> is always an array.
\<close>

definition TrackerResult_of :: "found_item \<Rightarrow> json" where
  "TrackerResult_of item =
     obj [(''title'', Some (JStr (if truthy_str (it_title item) then or_blank (it_title item)
                                  else ''Untitled''))),
          (''description'', map_option (\<lambda>c. JStr (take 200 c)) (it_content item)),
          (''url'', map_option JStr (it_url item)),
          (''images'', Some (JArr (if truthy_str (it_screenshot item)
                                   then [JStr (or_blank (it_screenshot item))] else []))),
          (''source'', Some (JStr ''firecrawl'')),
          (''score'', map_option JNum (it_score item)),
          (''metadata'', Some (obj [(''raw_content'', map_option JStr (it_content item))]))]"

definition searchWithFirecrawl :: "env \<Rightarrow> nat \<Rightarrow> json \<Rightarrow> json list outcome" where
  "searchWithFirecrawl e n query =
     and_then (search e n query) (\<lambda>result.
       case result of
         Failure m \<Rightarrow> Returns []
       | Success found \<Rightarrow> Returns (map TrackerResult_of found))"

subsection \<open>enrichResults\<close>

definition enrichResults_body :: "env \<Rightarrow> json list \<Rightarrow> json \<Rightarrow> json outcome" where
  \<open>enrichResults_body e results trackerPrompt =
     (case enrich_completion e trackerPrompt (take 10 results) of
        CompletionFails x \<Rightarrow> Throws x
      | Content c \<Rightarrow>
          (case JSON_parse e (if truthy_str c then or_blank c else ''{"results":[]}'') of
             None \<Rightarrow> Throws (JsError ''SyntaxError'')
           | Some enhanced \<Rightarrow>
               if enhanced = JNull
               then Throws (JsError ''TypeError: Cannot read properties of null'')
               else (case or_else (field enhanced ''results'') (Some (JArr results)) of
                       Some v \<Rightarrow> Returns v
                     | None \<Rightarrow> Returns (JArr results))))\<close>

definition enrichResults :: "env \<Rightarrow> json list \<Rightarrow> json \<Rightarrow> json outcome" where
  "enrichResults e results trackerPrompt =
     (if results = [] then Returns (JArr [])
      else try_catch (enrichResults_body e results trackerPrompt) (\<lambda>x. Returns (JArr results)))"

subsection \<open>runTracker\<close>

record run_success =
  run_results :: json
  runId :: nat

definition select_tracker :: "env \<Rightarrow> nat \<Rightarrow> db \<Rightarrow> tracker_row response \<times> db" where
  "select_tracker e trackerId d = (single e (filter (\<lambda>t. t_id t = trackerId) (trackers d)), d)"

definition insert_run :: "env \<Rightarrow> nat \<Rightarrow> db \<Rightarrow> run_row response \<times> db" where
  "insert_run e trackerId d =
     (let row = \<lparr> run_id = fresh_id (map run_id (tracker_runs d)), run_tracker_id = trackerId,
                  run_status = Running, run_error = None, run_metadata = None,
                  run_started_at = now e, run_completed_at = None \<rparr>
      in (\<lparr>data = Some row, error = None\<rparr>, d\<lparr>tracker_runs := tracker_runs d @ [row]\<rparr>))"

definition insert_results :: "result_row list \<Rightarrow> db \<Rightarrow> unit response \<times> db" where
  "insert_results rows d =
     (\<lparr>data = None, error = None\<rparr>, d\<lparr>tracker_results := tracker_results d @ rows\<rparr>)"

definition update_run :: "env \<Rightarrow> nat \<Rightarrow> json \<Rightarrow> db \<Rightarrow> unit response \<times> db" where
  "update_run e rid enriched d =
     (\<lparr>data = None, error = None\<rparr>,
      d\<lparr>tracker_runs :=
          map (\<lambda>r. if run_id r = rid
                    then r\<lparr> run_status := Completed, run_completed_at := Some (now e),
                            run_metadata := Some (obj [(''results_count'', js_length enriched)]) \<rparr>
                    else r)
            (tracker_runs d)\<rparr>)"

definition update_tracker :: "env \<Rightarrow> nat \<Rightarrow> db \<Rightarrow> unit response \<times> db" where
  "update_tracker e trackerId d =
     (\<lparr>data = None, error = None\<rparr>,
      d\<lparr>trackers :=
          map (\<lambda>t. if t_id t = trackerId then t\<lparr>t_last_run_at := Some (now e)\<rparr> else t)
            (trackers d)\<rparr>)"

text \<open>\<open>tracker.config?.queries || [tracker.prompt]\<close>\<close>

definition queries_of :: "tracker_row \<Rightarrow> json" where
  "queries_of tracker =
     (case or_else
             (case t_config tracker of
                None \<Rightarrow> None
              | Some c \<Rightarrow> if c = JNull then None else field c ''queries'')
             (Some (JArr [t_prompt tracker])) of
        Some q \<Rightarrow> q
      | None \<Rightarrow> JArr [t_prompt tracker])"

text \<open>The loop over the queries; \<open>n\<close> searches were made earlier.\<close>

fun collect :: "env \<Rightarrow> nat \<Rightarrow> json list \<Rightarrow> json list outcome" where
  "collect e n [] = Returns []"
| "collect e n (query # rest) =
     and_then (searchWithFirecrawl e n query) (\<lambda>searchResult.
       and_then (collect e (Suc n) rest) (\<lambda>more. Returns (searchResult @ more)))"

text \<open>The rows of \<open>enrichedResults.map(result => ({ ... }))\<close>.\<close>

definition row_of :: "nat \<Rightarrow> nat \<Rightarrow> json \<Rightarrow> result_row" where
  "row_of rid trackerId result =
     \<lparr> res_run_id = rid, res_tracker_id = trackerId,
       res_title = field result ''title'', res_description = field result ''description'',
       res_url = field result ''url'', res_images = field result ''images'',
       res_source = field result ''source'', res_score = field result ''score'',
       res_metadata = field result ''metadata'' \<rparr>"

fun rows_of :: "nat \<Rightarrow> nat \<Rightarrow> json list \<Rightarrow> result_row list outcome" where
  "rows_of rid trackerId [] = Returns []"
| "rows_of rid trackerId (result # rest) =
     (if result = JNull then Throws (JsError ''TypeError: Cannot read properties of null'')
      else and_then (rows_of rid trackerId rest) (\<lambda>rows.
             Returns (row_of rid trackerId result # rows)))"

definition resultsToInsert :: "nat \<Rightarrow> nat \<Rightarrow> json \<Rightarrow> result_row list outcome" where
  "resultsToInsert rid trackerId enriched =
     (case enriched of
        JArr xs \<Rightarrow> rows_of rid trackerId xs
      | _ \<Rightarrow> Throws (JsError ''TypeError: enrichedResults.map is not a function''))"

text \<open>A database call whose answer is not looked at.\<close>

definition db_do ::
  "env \<Rightarrow> db_call \<Rightarrow> db \<Rightarrow> (db \<Rightarrow> unit response \<times> db) \<Rightarrow> unit outcome \<times> db" where
  "db_do e call d run =
     (case fst (db_request e call d run) of
        Throws x \<Rightarrow> (Throws x, snd (db_request e call d run))
      | Returns resp \<Rightarrow> (Returns (), snd (db_request e call d run)))"

text \<open>
  The part of \<open>runTracker\<close> after the run record is there. \<open>run\<close> is read only as
  \<open>run.id\<close>.
\<close>

definition run_steps ::
  "env \<Rightarrow> db \<Rightarrow> nat \<Rightarrow> tracker_row \<Rightarrow> run_row \<Rightarrow> run_success result outcome \<times> db" where
  "run_steps e d trackerId tracker run =
     (case and_then (iterate (queries_of tracker)) (collect e 0) of
        Throws x \<Rightarrow> (Throws x, d)
      | Returns found \<Rightarrow>
          (case enrichResults e found (t_prompt tracker) of
             Throws x \<Rightarrow> (Throws x, d)
           | Returns enrichedResults \<Rightarrow>
               let saved =
                     (if gt_zero (toNumber e) (js_length enrichedResults)
                      then (case resultsToInsert (run_id run) trackerId enrichedResults of
                              Throws x \<Rightarrow> (Throws x, d)
                            | Returns rows \<Rightarrow> db_do e InsertResults d (insert_results rows))
                      else (Returns (), d))
               in (case fst saved of
                     Throws x \<Rightarrow> (Throws x, snd saved)
                   | Returns u \<Rightarrow>
                       let marked = db_do e UpdateRun (snd saved)
                                      (update_run e (run_id run) enrichedResults)
                       in (case fst marked of
                             Throws x \<Rightarrow> (Throws x, snd marked)
                           | Returns u \<Rightarrow>
                               let touched = db_do e UpdateTracker (snd marked)
                                               (update_tracker e trackerId)
                               in (case fst touched of
                                     Throws x \<Rightarrow> (Throws x, snd touched)
                                   | Returns u \<Rightarrow>
                                       (Returns (Success \<lparr>run_results = enrichedResults,
                                                          runId = run_id run\<rparr>),
                                        snd touched))))))"

text \<open>
  \<open>runTracker\<close> inside \<open>try\<close>. An insert that answers without error answers with the
  row, so the branch for \<open>run\<close> being \<open>null\<close> (where \<open>run.id\<close> would throw) is never taken.
\<close>

definition runTracker_body :: "env \<Rightarrow> db \<Rightarrow> nat \<Rightarrow> run_success result outcome \<times> db" where
  "runTracker_body e d trackerId =
     (case fst (db_request e SelectTracker d (select_tracker e trackerId)) of
        Throws x \<Rightarrow> (Throws x, d)
      | Returns found \<Rightarrow>
          (case (error found, data found) of
             (None, Some tracker) \<Rightarrow>
               (let created = db_request e InsertRun d (insert_run e trackerId)
                in (case fst created of
                      Throws x \<Rightarrow> (Throws x, snd created)
                    | Returns resp \<Rightarrow>
                        (case error resp of
                           Some x \<Rightarrow> (Throws x, snd created)
                         | None \<Rightarrow>
                             (case data resp of
                                None \<Rightarrow>
                                  (Throws (JsError ''TypeError: Cannot read properties of null''),
                                   snd created)
                              | Some run \<Rightarrow> run_steps e (snd created) trackerId tracker run))))
           | _ \<Rightarrow> (Throws (JsError ''Tracker not found''), d)))"

definition runTracker :: "env \<Rightarrow> db \<Rightarrow> nat \<Rightarrow> run_success result outcome \<times> db" where
  "runTracker e d trackerId =
     try_catch_db (runTracker_body e d trackerId)
       (\<lambda>x. Returns (Failure (message_or x ''Failed to run tracker'')))"


subsection \<open>getTrackerWithResults\<close>

record tracker_view =
  tracker :: "tracker_row option"
  latestRun :: "run_row option"
  view_results :: "result_row list"

text \<open>
  \<open>.eq('tracker_id', trackerId).order('started_at', { ascending: false }).limit(1).single()\<close>
\<close>

definition select_latest_run :: "env \<Rightarrow> nat \<Rightarrow> db \<Rightarrow> run_row response \<times> db" where
  "select_latest_run e trackerId d =
     (single e
        (take 1
           (order_by (\<lambda>a b. run_started_at a \<ge> run_started_at b)
              (filter (\<lambda>r. run_tracker_id r = trackerId) (tracker_runs d)))),
      d)"

text \<open>\<open>.eq('run_id', latestRun.id).order('score', { ascending: false })\<close>\<close>

definition select_results :: "nat \<Rightarrow> db \<Rightarrow> result_row list response \<times> db" where
  "select_results rid d =
     (\<lparr> data = Some (order_by score_desc (filter (\<lambda>r. res_run_id r = rid) (tracker_results d))),
        error = None \<rparr>,
      d)"

definition getTrackerWithResults_body :: "env \<Rightarrow> db \<Rightarrow> nat \<Rightarrow> tracker_view result outcome" where
  "getTrackerWithResults_body e d trackerId =
     and_then (fst (db_request e SelectTracker d (select_tracker e trackerId))) (\<lambda>found.
       case error found of
         Some x \<Rightarrow> Throws x
       | None \<Rightarrow>
           and_then (fst (db_request e SelectLatestRun d (select_latest_run e trackerId)))
             (\<lambda>latest.
               and_then
                 (case data latest of
                    None \<Rightarrow> Returns []
                  | Some run \<Rightarrow>
                      and_then (fst (db_request e SelectResults d (select_results (run_id run))))
                        (\<lambda>runResults. Returns (or_empty (data runResults))))
                 (\<lambda>rows.
                   Returns (Success \<lparr> tracker = data found, latestRun = data latest,
                                      view_results = rows \<rparr>))))"

definition getTrackerWithResults :: "env \<Rightarrow> db \<Rightarrow> nat \<Rightarrow> tracker_view result outcome" where
  "getTrackerWithResults e d trackerId =
     try_catch (getTrackerWithResults_body e d trackerId)
       (\<lambda>x. Returns (Failure (message_or x ''Failed to get tracker'')))"

subsection \<open>getPublicTrackers\<close>

text \<open>
  \<open>.eq('is_public', true).order('created_at', { ascending: false }).limit(20)\<close>
\<close>

definition select_public :: "db \<Rightarrow> tracker_row list response \<times> db" where
  "select_public d =
     (\<lparr> data = Some (take 20
                       (order_by (\<lambda>a b. t_created_at a \<ge> t_created_at b)
                          (filter (\<lambda>t. t_is_public t = Some True) (trackers d)))),
        error = None \<rparr>,
      d)"

definition getPublicTrackers_body :: "env \<Rightarrow> db \<Rightarrow> tracker_row list result outcome" where
  "getPublicTrackers_body e d =
     and_then (fst (db_request e SelectPublicTrackers d select_public)) (\<lambda>answer.
       case error answer of
         Some x \<Rightarrow> Throws x
       | None \<Rightarrow> Returns (Success (or_empty (data answer))))"

definition getPublicTrackers :: "env \<Rightarrow> db \<Rightarrow> tracker_row list result outcome" where
  "getPublicTrackers e d =
     try_catch (getPublicTrackers_body e d)
       (\<lambda>x. Returns (Failure (message_or x ''Failed to get trackers'')))"


section \<open>The route handlers (api/trackers/route.ts)\<close>

datatype response_body =
    ErrorBody string
  | TrackersBody "tracker_row list"
  | CreatedBody "tracker_row option" "run_success result"

record http_response =
  status :: nat
  body :: response_body

text \<open>
  \<open>POST\<close>. The request body is \<open>None\<close> when \<open>request.json()\<close> rejects. Destructuring
  \<open>null\<close> throws; \<open>createResult.tracker.id\<close> throws when \<open>tracker\<close> is \<open>null\<close>. A prompt
  that passed \<open>!prompt\<close> is a value, so the \<open>None\<close> branch of \<open>c_prompt\<close> is never taken.
\<close>

definition POST_body :: "env \<Rightarrow> db \<Rightarrow> json option \<Rightarrow> http_response outcome \<times> db" where
  "POST_body e d request =
     (case request of
        None \<Rightarrow> (Throws (JsError ''SyntaxError''), d)
      | Some b \<Rightarrow>
          if b = JNull then (Throws (JsError ''TypeError: Cannot destructure null''), d)
          else if \<not> truthy_opt (field b ''prompt'')
          then (Returns \<lparr>status = 400, body = ErrorBody ''Prompt is required''\<rparr>, d)
          else
            let created =
                  createTracker e d
                    \<lparr> c_name = field b ''name'',
                      c_prompt = (case field b ''prompt'' of Some prompt \<Rightarrow> prompt | None \<Rightarrow> JNull),
                      c_description = field b ''description'',
                      c_isPublic = Some (field b ''isPublic'' \<noteq> Some (JBool False)) \<rparr>
            in (case fst created of
                  Throws x \<Rightarrow> (Throws x, snd created)
                | Returns (Failure m) \<Rightarrow>
                    (Returns \<lparr>status = 500, body = ErrorBody m\<rparr>, snd created)
                | Returns (Success t) \<Rightarrow>
                    (case t of
                       None \<Rightarrow>
                         (Throws (JsError ''TypeError: Cannot read properties of null''),
                          snd created)
                     | Some row \<Rightarrow>
                         let ran = runTracker e (snd created) (t_id row)
                         in (case fst ran of
                               Throws x \<Rightarrow> (Throws x, snd ran)
                             | Returns runResult \<Rightarrow>
                                 (Returns \<lparr>status = 200, body = CreatedBody t runResult\<rparr>,
                                  snd ran)))))"

definition POST :: "env \<Rightarrow> db \<Rightarrow> json option \<Rightarrow> http_response outcome \<times> db" where
  "POST e d request =
     try_catch_db (POST_body e d request)
       (\<lambda>x. Returns \<lparr>status = 500, body = ErrorBody ''Failed to create tracker''\<rparr>)"

definition GET :: "env \<Rightarrow> db \<Rightarrow> http_response outcome" where
  "GET e d =
     try_catch
       (and_then (getPublicTrackers e d) (\<lambda>result.
          case result of
            Failure m \<Rightarrow> Returns \<lparr>status = 500, body = ErrorBody m\<rparr>
          | Success ts \<Rightarrow> Returns \<lparr>status = 200, body = TrackersBody ts\<rparr>))
       (\<lambda>x. Returns \<lparr>status = 500, body = ErrorBody ''Failed to fetch trackers''\<rparr>)"


section \<open>Notions used to state and prove the properties\<close>

text \<open>
  Both deduplication loops have one shape: an item without a key is skipped, an item
  whose key is new is stored, and any other item is merged into the stored one.
\<close>

definition keyed_step ::
  "('a \<Rightarrow> 'k option) \<Rightarrow> ('a \<Rightarrow> 'a \<Rightarrow> 'a) \<Rightarrow> ('k \<times> 'a) list \<Rightarrow> 'a \<Rightarrow> ('k \<times> 'a) list" where
  "keyed_step key f m x =
     (case key x of
        None \<Rightarrow> m
      | Some k \<Rightarrow>
          (case map_of m k of
             Some e \<Rightarrow> AList.update k (f e x) m
           | None \<Rightarrow> AList.update k x m))"

text \<open>The items of a list that carry the key \<open>k\<close>, in their order.\<close>

definition group_of :: "('a \<Rightarrow> 'k option) \<Rightarrow> 'k \<Rightarrow> 'a list \<Rightarrow> 'a list" where
  "group_of key k xs = filter (\<lambda>x. key x = Some k) xs"

text \<open>The first item of a group with the later ones merged into it, one after the other.\<close>

definition merge_group :: "('a \<Rightarrow> 'a \<Rightarrow> 'a) \<Rightarrow> 'a list \<Rightarrow> 'a" where
  "merge_group f g = foldl f (hd g) (tl g)"

text \<open>The key of \<open>mergeAndDedupe\<close>: none for a missing or empty product name.\<close>

definition trend_key :: "(string \<Rightarrow> string) \<Rightarrow> 'n BeautyTrend \<Rightarrow> string option" where
  "trend_key toLowerCase item =
     (if truthy_str (productName item) then Some (toLowerCase (or_blank (productName item)))
      else None)"

text \<open>
  The counters of a group added up as the loop of \<open>mergeAndDedupe\<close> adds them: from
  left to right with \<open>+\<close>, where \<open>|| 0\<close> is applied to every counter and to the running
  total before each addition.
\<close>

definition js_sum :: "'n js_numbers \<Rightarrow> 'n option list \<Rightarrow> 'n" where
  "js_sum ops ms =
     foldl (\<lambda>total m. js_add ops (or_zero ops (Some total)) (or_zero ops m))
       (or_zero ops (hd ms)) (tl ms)"

text \<open>The key of \<open>deduplicateResults\<close>: every result has one.\<close>

definition hash_key :: "(string \<Rightarrow> string) \<Rightarrow> 'n raw_result \<Rightarrow> string option" where
  "hash_key md5 result = Some (contentHash md5 result)"

text \<open>
  The state of \<open>deduplicateResults\<close> against an association list from hashes to
  objects: the map holds the positions, \<open>unique\<close> the objects.
\<close>

definition dedup_rel ::
  "(string \<times> nat) list \<times> 'n raw_result list \<Rightarrow> (string \<times> 'n raw_result) list \<Rightarrow> bool" where
  "dedup_rel st al \<longleftrightarrow>
     fst st = zip (map fst al) [0..<length al] \<and> snd st = map snd al \<and> distinct (map fst al)"

text \<open>The elements of the result of a sort, whatever their order.\<close>

fun elements_of :: "'a sorted \<Rightarrow> 'a multiset" where
  "elements_of (InOrder ys) = mset ys"
| "elements_of (ImplementationDefined xs) = mset xs"

text \<open>What the caller of an operation sees, given what the body inside \<open>try\<close> did.\<close>

definition reports :: "'a result outcome \<Rightarrow> string \<Rightarrow> 'a result outcome \<Rightarrow> bool" where
  "reports inner fallback seen =
     (case inner of
        Throws x \<Rightarrow> seen = Returns (Failure (message_or x fallback))
      | Returns v \<Rightarrow> seen = Returns v \<and> success v)"

text \<open>The run record as \<open>runTracker\<close> leaves it after a run without error.\<close>

definition completed_run :: "env \<Rightarrow> db \<Rightarrow> nat \<Rightarrow> nat \<Rightarrow> run_row" where
  "completed_run e d trackerId n =
     \<lparr> run_id = fresh_id (map run_id (tracker_runs d)), run_tracker_id = trackerId,
       run_status = Completed, run_error = None,
       run_metadata = Some (JObj [(''results_count'', JNum (of_nat n))]),
       run_started_at = now e, run_completed_at = Some (now e) \<rparr>"


section \<open>Example data\<close>

text \<open>
  Stand-ins for the parameters on the data of the examples. The numbers of the
  examples are whole numbers of a few digits and quotients that are whole numbers, on
  which the arithmetic of doubles is exact: \<open>exact_numbers\<close> computes with rationals.
  The product names of the examples are made of ASCII letters and spaces, on which
  \<open>String.prototype.toLowerCase\<close> maps \<open>A\<close> to \<open>Z\<close> to \<open>a\<close> to \<open>z\<close> and leaves the rest:
  \<open>ascii_lower\<close> does that.
\<close>

datatype exact = Exact rat | NoNumber

fun exact_op :: "(rat \<Rightarrow> rat \<Rightarrow> rat) \<Rightarrow> exact \<Rightarrow> exact \<Rightarrow> exact" where
  "exact_op f (Exact x) (Exact y) = Exact (f x y)"
| "exact_op f x y = NoNumber"

fun exact_div :: "exact \<Rightarrow> exact \<Rightarrow> exact" where
  "exact_div (Exact x) (Exact y) = (if y = 0 then NoNumber else Exact (x / y))"
| "exact_div x y = NoNumber"

fun exact_lt :: "exact \<Rightarrow> exact \<Rightarrow> bool" where
  "exact_lt (Exact x) (Exact y) = (x < y)"
| "exact_lt x y = False"

fun exact_truthy :: "exact \<Rightarrow> bool" where
  "exact_truthy (Exact x) = (x \<noteq> 0)"
| "exact_truthy NoNumber = False"

definition exact_numbers :: "exact js_numbers" where
  "exact_numbers =
     \<lparr> js_num = (\<lambda>k. Exact (of_int k)), js_NaN = NoNumber, js_isNaN = (\<lambda>v. v = NoNumber),
       js_truthy = exact_truthy, js_add = exact_op (+), js_sub = exact_op (-),
       js_mul = exact_op (*), js_div = exact_div, js_max = exact_op max, js_lt = exact_lt \<rparr>"

definition lower_char :: "char \<Rightarrow> char" where
  "lower_char c =
     (let n = of_char c :: nat in if 65 \<le> n \<and> n \<le> 90 then char_of (n + 32) else c)"

definition ascii_lower :: "string \<Rightarrow> string" where
  "ascii_lower s = map lower_char s"

definition unnamed_trend :: "exact BeautyTrend" where
  "unnamed_trend =
     \<lparr> productName = None, images = Some [''x.png''], mentions = Some (Exact 3),
       platforms = Some [''Instagram''], summary = Some ''glass skin'', rawContent = None \<rparr>"

definition example_trends :: "exact BeautyTrend list" where
  "example_trends =
     [\<lparr> productName = Some ''Snail Cream'', images = Some [''a.png''], mentions = Some (Exact 5),
         platforms = Some [''TikTok''], summary = None, rawContent = None \<rparr>,
      unnamed_trend,
      \<lparr> productName = Some ''snail cream'', images = Some [''a.png'', ''b.png''], mentions = None,
         platforms = Some [''Instagram'', ''TikTok''], summary = None, rawContent = None \<rparr>]"

definition example_result :: "string \<Rightarrow> int \<Rightarrow> exact raw_result" where
  "example_result src n =
     \<lparr> title = Some ''Glow Serum'', content = Some ''review'', url = Some ''https://shop.example/glow'',
       screenshot = None, r_images = Some [''glow.png''], source = Some src, sources = None,
       relevanceScore = None, media = None, publishedDate = None, enrichedAt = None,
       r_mentions = Some (Exact (of_int n)) \<rparr>"

definition example_results :: "exact raw_result list" where
  "example_results = [example_result ''exa'' 5, example_result ''jina'' 7, example_result ''jina'' 1]"

definition example_item :: "string \<Rightarrow> int \<Rightarrow> string list \<Rightarrow> int \<Rightarrow> exact raw_result" where
  "example_item t rel m published =
     \<lparr> title = Some t, content = None, url = Some t, screenshot = None, r_images = None,
       source = Some ''jina'', sources = None, relevanceScore = Some (Exact (of_int rel)),
       media = Some m, publishedDate = Some published, enrichedAt = Some published,
       r_mentions = None \<rparr>"

text \<open>One day, in milliseconds.\<close>

definition day :: int where
  "day = 1000 * 60 * 60 * 24"

definition with_media :: "exact raw_result" where
  "with_media = example_item ''with media'' 0 [''m.png''] 0"

definition relevant :: "exact raw_result" where
  "relevant = example_item ''relevant'' 10 [] 0"

definition fresh_item :: "exact raw_result" where
  "fresh_item = example_item ''fresh'' 0 [''m.png''] (20 * day)"

definition old_item :: "exact raw_result" where
  "old_item = example_item ''old'' 1 [] 0"

text \<open>Two results of one URL, the second with a screenshot.\<close>

definition example_pages :: "exact raw_result list" where
  "example_pages =
     [example_result ''exa'' 5,
      (example_result ''jina'' 7)\<lparr>screenshot := Some ''shot.png''\<rparr>,
      (example_item ''news'' 0 [] day)\<lparr>screenshot := Some ''news.png''\<rparr>]"

text \<open>
  A stand-in for \<open>JSON.parse\<close> on the few texts of the examples: it reads three objects
  and rejects everything else, among it the empty text and a sentence of prose.
\<close>

definition example_parse :: "string \<Rightarrow> json option" where
  \<open>example_parse s =
     (if s = ''{"results":[]}'' then Some (JObj [(''results'', JArr [])])
      else if s = ''{}'' then Some (JObj [])
      else if s = ''{"results":"none"}'' then Some (JObj [(''results'', JStr ''none'')])
      else None)\<close>

definition example_found :: fc_item where
  "example_found =
     \<lparr> fi_title = Some ''Post'', fi_url = Some ''https://a.example/p'',
       fi_markdown = Some ''text'', fi_screenshot = None, fi_score = Some 1 \<rparr>"

text \<open>
  An environment without database faults, in which the enrichment call answers \<open>c\<close>
  and every search answers \<open>sr\<close>; the completion for \<open>parsePrompt\<close> fails.
\<close>

definition example_env :: "completion \<Rightarrow> search_response \<Rightarrow> env" where
  "example_env c sr =
     \<lparr> now = 100, db_fault = (\<lambda>call. None), single_error = OtherValue,
       parse_completion = (\<lambda>prompt. CompletionFails (JsError ''openai down'')),
       enrich_completion = (\<lambda>prompt rs. c), JSON_parse = example_parse,
       toNumber = (\<lambda>v. None), client_search = (\<lambda>n query. sr),
       client_scrape = (\<lambda>u. ScrapeFails (JsError ''scrape down'')) \<rparr>"

definition empty_db :: db where
  "empty_db = \<lparr>trackers = [], tracker_runs = [], tracker_results = []\<rparr>"

definition example_config :: TrackerConfig where
  "example_config =
     \<lparr> c_name = None, c_prompt = JStr ''Track AI tools'', c_description = None,
       c_isPublic = Some False \<rparr>"

definition example_env_ok :: env where
  "example_env_ok = example_env (Content None) (SearchData None)"

definition blank_request :: json where
  "blank_request = JObj [(''prompt'', JStr []), (''name'', JStr ''AI'')]"

text \<open>An environment in which every database call answers with an error.\<close>

definition faulty_env :: env where
  "faulty_env =
     example_env_ok
       \<lparr> db_fault := (\<lambda>call. Some (Responds (JsError ''connection refused''))),
         client_search := (\<lambda>n query. SearchFails (JsError ''timeout'')) \<rparr>"

definition example_tracker :: tracker_row where
  "example_tracker =
     \<lparr> t_id = 1, t_name = Some (JStr ''Track AI tools''),
       t_description = Some (JStr ''Track AI tools''), t_prompt = JStr ''Track AI tools'',
       t_config = Some (JObj [(''queries'', JArr [JStr ''Track AI tools'']),
                              (''platforms'', JArr [JStr ''web''])]),
       t_sources = Some (JArr [JStr ''web'']), t_is_public = Some True,
       t_created_at = 100, t_last_run_at = None \<rparr>"

definition one_tracker_db :: db where
  "one_tracker_db = \<lparr>trackers = [example_tracker], tracker_runs = [], tracker_results = []\<rparr>"

text \<open>The enrichment call answers with prose, with the empty text, with a string for \<open>results\<close>.\<close>

definition prose_env :: env where
  "prose_env = example_env (Content (Some ''Sorry, no JSON today'')) (SearchData (Some [example_found]))"

definition empty_content_env :: env where
  "empty_content_env = example_env (Content (Some [])) (SearchData (Some [example_found]))"

definition stringy_env :: env where
  \<open>stringy_env =
     example_env (Content (Some ''{"results":"none"}'')) (SearchData (Some [example_found]))\<close>

text \<open>An environment in which every search times out.\<close>

definition sources_down_env :: env where
  "sources_down_env = example_env (Content None) (SearchFails (JsError ''timeout''))"

text \<open>The \<open>TrackerResult\<close> object that \<open>searchWithFirecrawl\<close> builds from \<open>example_found\<close>.\<close>

definition example_object :: json where
  "example_object =
     JObj [(''title'', JStr ''Post''), (''description'', JStr ''text''),
           (''url'', JStr ''https://a.example/p''), (''images'', JArr []),
           (''source'', JStr ''firecrawl''), (''score'', JNum 1),
           (''metadata'', JObj [(''raw_content'', JStr ''text'')])]"

definition old_run :: run_row where
  "old_run =
     \<lparr> run_id = 1, run_tracker_id = 1, run_status = Completed, run_error = None,
       run_metadata = Some (JObj [(''results_count'', JNum 1)]), run_started_at = 100,
       run_completed_at = Some 100 \<rparr>"

definition stuck_run :: run_row where
  "stuck_run =
     \<lparr> run_id = 2, run_tracker_id = 1, run_status = Running, run_error = None,
       run_metadata = None, run_started_at = 200, run_completed_at = None \<rparr>"

definition old_result :: result_row where
  "old_result =
     \<lparr> res_run_id = 1, res_tracker_id = 1, res_title = Some (JStr ''Post''),
       res_description = None, res_url = None, res_images = Some (JArr []),
       res_source = Some (JStr ''firecrawl''), res_score = Some (JNum 1),
       res_metadata = None \<rparr>"

text \<open>
  A tracker whose run of time 100 completed with one result and whose run of time 200
  never got beyond \<open>running\<close>.
\<close>

definition stale_db :: db where
  "stale_db =
     \<lparr> trackers = [example_tracker], tracker_runs = [old_run, stuck_run],
       tracker_results = [old_result] \<rparr>"


section \<open>Properties of the helpers\<close>

lemma set_add_distinct: "distinct acc \<Longrightarrow> distinct (set_add acc x)"
  by (simp add: set_add_def)

lemma foldl_set_add_distinct: "distinct acc \<Longrightarrow> distinct (foldl set_add acc xs)"
  by (induction xs arbitrary: acc) (simp_all add: set_add_distinct)

lemma set_spread_distinct: "distinct (set_spread xs)"
  by (simp add: set_spread_def foldl_set_add_distinct)

lemma foldl_set_add_set: "set (foldl set_add acc xs) = set acc \<union> set xs"
  by (induction xs arbitrary: acc) (auto simp: set_add_def)

lemma set_spread_set: "set (set_spread xs) = set xs"
  by (simp add: set_spread_def foldl_set_add_set)

lemma foldl_set_add_id: "distinct (acc @ ys) \<Longrightarrow> foldl set_add acc ys = acc @ ys"
  by (induction ys arbitrary: acc) (auto simp: set_add_def)

lemma set_spread_id: "distinct ys \<Longrightarrow> set_spread ys = ys"
  using foldl_set_add_id [of "[]" ys] by (simp add: set_spread_def)

lemma set_spread_append: "set_spread (set_spread a @ b) = set_spread (a @ b)"
proof -
  have "set_spread (set_spread a) = set_spread a"
    by (rule set_spread_id) (rule set_spread_distinct)
  then show ?thesis by (simp add: set_spread_def)
qed

lemma keyed_step_keys:
  "map fst (keyed_step key f m x) =
     (case key x of None \<Rightarrow> map fst m | Some k \<Rightarrow> set_add (map fst m) k)"
  by (auto simp: keyed_step_def set_add_def update_keys split: option.splits
      dest: map_of_SomeD weak_map_of_SomeI simp: map_of_eq_None_iff image_iff)

lemma keyed_fold_keys:
  "map fst (foldl (keyed_step key f) m xs) = foldl set_add (map fst m) (List.map_filter key xs)"
proof (induction xs arbitrary: m)
  case Nil
  show ?case by (simp add: map_filter_simps)
next
  case (Cons x xs)
  show ?case
    by (cases "key x") (simp_all add: Cons map_filter_simps keyed_step_keys)
qed

lemma keyed_step_lookup:
  "map_of (keyed_step key f m x) k =
     (if key x = Some k
      then (case map_of m k of Some e \<Rightarrow> Some (f e x) | None \<Rightarrow> Some x)
      else map_of m k)"
  by (auto simp: keyed_step_def update_conv' split: option.splits)

lemma keyed_fold_lookup:
  "map_of (foldl (keyed_step key f) m xs) k =
     (case map_of m k of
        Some e \<Rightarrow> Some (foldl f e (group_of key k xs))
      | None \<Rightarrow>
          (case group_of key k xs of [] \<Rightarrow> None | g # gs \<Rightarrow> Some (foldl f g gs)))"
proof (induction xs arbitrary: m)
  case Nil
  show ?case by (simp add: group_of_def split: option.splits)
next
  case (Cons x xs)
  show ?case
    by (simp add: Cons keyed_step_lookup group_of_def split: option.splits)
qed

lemma distinct_keys_values:
  "distinct (map fst al) \<Longrightarrow> map snd al = map (\<lambda>k. the (map_of al k)) (map fst al)"
proof (induction al)
  case Nil
  show ?case by simp
next
  case (Cons p al)
  from Cons.prems have d: "distinct (map fst al)" and n: "fst p \<notin> fst ` set al"
    by simp_all
  have "map (\<lambda>k. the (map_of (p # al) k)) (map fst al) = map (\<lambda>k. the (map_of al k)) (map fst al)"
  proof (rule map_cong [OF refl])
    fix k assume "k \<in> set (map fst al)"
    then have "k \<in> fst ` set al" by simp
    with n have "k \<noteq> fst p" by blast
    then show "the (map_of (p # al) k) = the (map_of al k)" by (cases p) simp
  qed
  with Cons.IH [OF d] show ?case by (cases p) simp
qed

lemma keyed_fold_values:
  "map snd (foldl (keyed_step key f) [] xs) =
     map (\<lambda>k. merge_group f (group_of key k xs)) (set_spread (List.map_filter key xs))"
proof -
  let ?al = "foldl (keyed_step key f) [] xs"
  have keys: "map fst ?al = set_spread (List.map_filter key xs)"
    by (simp add: keyed_fold_keys set_spread_def)
  then have d: "distinct (map fst ?al)"
    by (simp add: set_spread_distinct)
  have "the (map_of ?al k) = merge_group f (group_of key k xs)"
    if "k \<in> set (List.map_filter key xs)" for k
  proof -
    from that obtain x where "x \<in> set xs" "key x = Some k"
      by (auto simp: map_filter_def)
    then have "group_of key k xs \<noteq> []"
      by (auto simp: group_of_def filter_empty_conv)
    then show ?thesis
      by (cases "group_of key k xs") (simp_all add: keyed_fold_lookup merge_group_def)
  qed
  then have "map (\<lambda>k. the (map_of ?al k)) (set_spread (List.map_filter key xs)) =
      map (\<lambda>k. merge_group f (group_of key k xs)) (set_spread (List.map_filter key xs))"
    by (simp add: set_spread_set)
  with distinct_keys_values [OF d] keys show ?thesis by simp
qed




lemma find_similar:
  "find (\<lambda>(existingHash, i). calculateSimilarity h existingHash > 85 / 100) hs =
     (case map_of hs h of None \<Rightarrow> None | Some i \<Rightarrow> Some (h, i))"
  by (induction hs) (auto simp: calculateSimilarity_def)

lemma update_absent: "k \<notin> fst ` set al \<Longrightarrow> AList.update k v al = al @ [(k, v)]"
  by (induction al) auto

lemma update_present:
  "distinct (map fst al) \<Longrightarrow> i < length al \<Longrightarrow> fst (al ! i) = k \<Longrightarrow>
     AList.update k v al = al[i := (k, v)]"
proof (induction al arbitrary: i)
  case Nil
  then show ?case by simp
next
  case (Cons p al)
  show ?case
  proof (cases i)
    case 0
    with Cons.prems show ?thesis by (cases p) simp
  next
    case (Suc j)
    with Cons.prems have j: "j < length al" "fst (al ! j) = k" by simp_all
    then have "k \<in> fst ` set al" by (metis nth_mem image_eqI)
    moreover from Cons.prems have "fst p \<notin> fst ` set al" by simp
    ultimately have "fst p \<noteq> k" by blast
    moreover from Cons.prems have "distinct (map fst al)" by simp
    ultimately show ?thesis
      using Cons.IH [of j] j Suc by (cases p) simp
  qed
qed

lemma map_of_present:
  "distinct (map fst al) \<Longrightarrow> i < length al \<Longrightarrow> map_of al (fst (al ! i)) = Some (snd (al ! i))"
  by (simp add: nth_mem)

lemma map_of_positions:
  assumes "map_of (zip ks [0..<length ks]) h = Some i"
  shows "i < length ks \<and> ks ! i = h"
proof -
  from assms have "(h, i) \<in> set (zip ks [0..<length ks])"
    by (rule map_of_SomeD)
  then obtain j where "j < length ks" "ks ! j = h" "[0..<length ks] ! j = i"
    by (auto simp: set_zip)
  then show ?thesis by auto
qed

lemma map_of_positions_None:
  assumes "map_of (zip ks [0..<length ks]) h = None"
  shows "h \<notin> set ks"
proof -
  from assms have "h \<notin> fst ` set (zip ks [0..<length ks])"
    by (simp add: map_of_eq_None_iff)
  moreover have "map fst (zip ks [0..<length ks]) = ks" by simp
  ultimately show ?thesis by (metis set_map)
qed

lemma dedup_step_sim:
  assumes "dedup_rel st al"
  shows "dedup_rel (dedup_step md5 st r)
           (keyed_step (hash_key md5) mergeResults al r)"
proof -
  let ?h = "contentHash md5 r"
  let ?ks = "map fst al"
  from assms have hs: "fst st = zip ?ks [0..<length ?ks]" and uq: "snd st = map snd al"
    and d: "distinct ?ks"
    by (simp_all add: dedup_rel_def)
  show ?thesis
  proof (cases "map_of (fst st) ?h")
    case None
    with hs have nin: "?h \<notin> set ?ks" using map_of_positions_None [of ?ks ?h] by simp
    then have nin': "?h \<notin> fst ` set al" by simp
    then have al_None: "map_of al ?h = None" by (simp add: map_of_eq_None_iff)
    have "?h \<notin> fst ` set (fst st)" using None by (simp add: map_of_eq_None_iff)
    then have upd: "AList.update ?h (length (snd st)) (fst st) = fst st @ [(?h, length (snd st))]"
      by (rule update_absent)
    have step: "dedup_step md5 st r = (fst st @ [(?h, length al)], map snd al @ [r])"
      unfolding dedup_step_def Let_def find_similar using None upd uq by simp
    have kstep: "keyed_step (hash_key md5) mergeResults al r = al @ [(?h, r)]"
      using al_None update_absent [OF nin'] by (simp add: keyed_step_def hash_key_def)
    show ?thesis
      unfolding step kstep using hs d nin by (simp add: dedup_rel_def)
  next
    case (Some i)
    with hs have i: "i < length ?ks" "?ks ! i = ?h"
      using map_of_positions [of ?ks ?h i] by simp_all
    then have i': "i < length al" "fst (al ! i) = ?h" by simp_all
    have al_Some: "map_of al ?h = Some (snd (al ! i))"
      using map_of_present [OF d i'(1)] i'(2) by simp
    have step: "dedup_step md5 st r = (fst st, (map snd al)[i := mergeResults (snd (al ! i)) r])"
      unfolding dedup_step_def Let_def find_similar using Some uq i'(1) by simp
    have kstep: "keyed_step (hash_key md5) mergeResults al r =
        al[i := (?h, mergeResults (snd (al ! i)) r)]"
      using al_Some update_present [OF d i'] by (simp add: keyed_step_def hash_key_def)
    have keys: "map fst (al[i := (?h, mergeResults (snd (al ! i)) r)]) = ?ks"
      using i by (simp add: map_update list_update_same_conv)
    show ?thesis
      unfolding step kstep dedup_rel_def using hs d keys by (simp add: map_update)
  qed
qed

lemma dedup_fold_sim:
  "dedup_rel st al \<Longrightarrow>
     dedup_rel (foldl (dedup_step md5) st rs)
       (foldl (keyed_step (hash_key md5) mergeResults) al rs)"
  by (induction rs arbitrary: st al) (simp_all add: dedup_step_sim)

lemma deduplicateResults_keyed:
  "deduplicateResults md5 rs =
     map snd (foldl (keyed_step (hash_key md5) mergeResults) [] rs)"
proof -
  have "dedup_rel ([], []) []" by (simp add: dedup_rel_def)
  from dedup_fold_sim [OF this, of md5 rs] show ?thesis
    by (simp add: dedup_rel_def deduplicateResults_def)
qed

lemma dedupe_step_keyed:
  "dedupe_step ops lower = keyed_step (trend_key lower) (merge_trend ops)"
  by (intro ext) (simp add: dedupe_step_def keyed_step_def trend_key_def Let_def)


section \<open>Deduplication\<close>

lemma mergeAndDedupe_groups:
  "mergeAndDedupe ops lower items =
     map (\<lambda>k. merge_group (merge_trend ops) (group_of (trend_key lower) k items))
       (set_spread (List.map_filter (trend_key lower) items))"
  by (simp add: mergeAndDedupe_def dedupe_step_keyed keyed_fold_values)

lemma map_filter_hash_key: "List.map_filter (hash_key md5) rs = map (contentHash md5) rs"
  by (induction rs) (simp_all add: map_filter_simps hash_key_def)

lemma deduplicateResults_groups:
  "deduplicateResults md5 rs =
     map (\<lambda>h. merge_group mergeResults (group_of (hash_key md5) h rs))
       (set_spread (map (contentHash md5) rs))"
  by (simp add: deduplicateResults_keyed keyed_fold_values map_filter_hash_key)

lemma merge_trend_fields:
  "productName (merge_trend ops e x) = productName e"
  "platforms (merge_trend ops e x) =
     Some (set_spread (or_empty (platforms e) @ or_empty (platforms x)))"
  "images (merge_trend ops e x) = Some (set_spread (or_empty (images e) @ or_empty (images x)))"
  "mentions (merge_trend ops e x) =
     Some (js_add ops (or_zero ops (mentions e)) (or_zero ops (mentions x)))"
  by (simp_all add: merge_trend_def)

lemma foldl_merge_trend_name: "productName (foldl (merge_trend ops) e gs) = productName e"
  by (induction gs arbitrary: e) (simp_all add: merge_trend_fields)

lemma foldl_merge_trend_platforms:
  "gs \<noteq> [] \<Longrightarrow>
     platforms (foldl (merge_trend ops) e gs) =
       Some (set_spread (or_empty (platforms e) @ concat (map (\<lambda>x. or_empty (platforms x)) gs)))"
proof (induction gs arbitrary: e)
  case Nil
  then show ?case by simp
next
  case (Cons x gs)
  show ?case
  proof (cases "gs = []")
    case True
    then show ?thesis by (simp add: merge_trend_fields)
  next
    case False
    from Cons.IH [OF False, of "merge_trend ops e x"] show ?thesis
      by (simp add: merge_trend_fields or_empty_def set_spread_append)
  qed
qed

lemma foldl_merge_trend_images:
  "gs \<noteq> [] \<Longrightarrow>
     images (foldl (merge_trend ops) e gs) =
       Some (set_spread (or_empty (images e) @ concat (map (\<lambda>x. or_empty (images x)) gs)))"
proof (induction gs arbitrary: e)
  case Nil
  then show ?case by simp
next
  case (Cons x gs)
  show ?case
  proof (cases "gs = []")
    case True
    then show ?thesis by (simp add: merge_trend_fields)
  next
    case False
    from Cons.IH [OF False, of "merge_trend ops e x"] show ?thesis
      by (simp add: merge_trend_fields or_empty_def set_spread_append)
  qed
qed

lemma or_zero_again: "or_zero ops (Some (or_zero ops m)) = or_zero ops m"
  by (simp add: or_zero_def split: option.splits)

lemma foldl_merge_trend_mentions:
  "gs \<noteq> [] \<Longrightarrow>
     mentions (foldl (merge_trend ops) e gs) =
       Some (foldl (\<lambda>total m. js_add ops (or_zero ops (Some total)) (or_zero ops m))
               (or_zero ops (mentions e)) (map mentions gs))"
proof (induction gs arbitrary: e)
  case Nil
  then show ?case by simp
next
  case (Cons x gs)
  show ?case
  proof (cases "gs = []")
    case True
    then show ?thesis by (simp add: merge_trend_fields or_zero_again)
  next
    case False
    then obtain y ys where gs: "gs = y # ys" by (cases gs) auto
    from Cons.IH [OF False, of "merge_trend ops e x"] show ?thesis
      by (simp add: gs merge_trend_fields or_zero_again)
  qed
qed

lemma mergeResults_fields:
  "title (mergeResults e x) = title e"
  "r_mentions (mergeResults e x) = r_mentions e"
  "or_empty (sources (mergeResults e x)) = or_empty (sources e) @ [source x]"
  "or_empty (r_images (mergeResults e x)) = or_empty (r_images e) @ or_empty (r_images x)"
  by (simp_all add: mergeResults_def Let_def or_empty_def split: option.splits)

lemma foldl_mergeResults_fields:
  "title (foldl mergeResults e gs) = title e"
  "r_mentions (foldl mergeResults e gs) = r_mentions e"
  "or_empty (sources (foldl mergeResults e gs)) = or_empty (sources e) @ map source gs"
  "or_empty (r_images (foldl mergeResults e gs)) =
     or_empty (r_images e) @ concat (map (\<lambda>x. or_empty (r_images x)) gs)"
  by (induction gs arbitrary: e) (simp_all add: mergeResults_fields)

lemma filter_map_keys:
  "distinct ks \<Longrightarrow> k \<in> set ks \<Longrightarrow> (\<And>k'. k' \<in> set ks \<Longrightarrow> key (F k') = Some k') \<Longrightarrow>
     filter (\<lambda>out. key out = Some k) (map F ks) = [F k]"
proof (induction ks)
  case Nil
  then show ?case by simp
next
  case (Cons a ks)
  show ?case
  proof (cases "a = k")
    case True
    with Cons.prems(1) have "k \<notin> set ks" by simp
    then have "filter (\<lambda>out. key out = Some k) (map F ks) = []"
      using Cons.prems(3) by (auto simp: filter_empty_conv)
    with True Cons.prems(3) show ?thesis by simp
  next
    case False
    with Cons.prems have "k \<in> set ks" "distinct ks" by simp_all
    from Cons.IH [OF this(2) this(1)] Cons.prems(3) False show ?thesis by simp
  qed
qed

lemma group_nonempty:
  "k \<in> set (List.map_filter key xs) \<Longrightarrow> group_of key k xs \<noteq> []"
  by (auto simp: map_filter_def group_of_def filter_empty_conv)

lemma group_hd_key: "group_of key k xs \<noteq> [] \<Longrightarrow> key (hd (group_of key k xs)) = Some k"
proof -
  assume "group_of key k xs \<noteq> []"
  then have "hd (group_of key k xs) \<in> set (group_of key k xs)" by simp
  then show ?thesis by (simp add: group_of_def)
qed

lemma trend_key_merge_group:
  "trend_key lower (merge_group (merge_trend ops) g) = trend_key lower (hd g)"
  by (simp add: trend_key_def merge_group_def foldl_merge_trend_name)

lemma mergeAndDedupe_one_per_name:
  assumes "group_of (trend_key lower) k items \<noteq> []"
  shows "filter (\<lambda>out. trend_key lower out = Some k) (mergeAndDedupe ops lower items) =
           [merge_group (merge_trend ops) (group_of (trend_key lower) k items)]"
proof -
  let ?key = "trend_key lower"
  let ?F = "\<lambda>k. merge_group (merge_trend ops) (group_of ?key k items)"
  let ?ks = "set_spread (List.map_filter ?key items)"
  from assms obtain x where "x \<in> set items" "?key x = Some k"
    by (auto simp: group_of_def filter_empty_conv)
  then have "k \<in> set (List.map_filter ?key items)"
    by (force simp: map_filter_def)
  then have k: "k \<in> set ?ks" by (simp add: set_spread_set)
  have keys: "?key (?F k') = Some k'" if "k' \<in> set ?ks" for k'
    using that by (simp add: trend_key_merge_group group_hd_key group_nonempty set_spread_set)
  have "filter (\<lambda>out. ?key out = Some k) (map ?F ?ks) = [?F k]"
    using set_spread_distinct k keys
    by (intro filter_map_keys [where F = ?F and key = ?key]) simp_all
  then show ?thesis by (simp add: mergeAndDedupe_groups)
qed

text \<open>
  C1, as stated, fails on \<open>mergeAndDedupe\<close>: an item without a product name is not
  passed through, it is dropped.
\<close>

theorem mergeAndDedupe_drops_unnamed:
  "mergeAndDedupe exact_numbers ascii_lower [unnamed_trend] = []"
  by (simp add: mergeAndDedupe_def dedupe_step_def unnamed_trend_def truthy_str_def)

text \<open>
  C1, amended. \<open>mergeAndDedupe\<close> gives one item for every distinct value of
  \<open>productName.toLowerCase()\<close> among the items with a non-empty product name, in the
  order of first occurrence: the first item of that name with every later one merged
  into it; an item whose name is missing or empty belongs to no group and is dropped.
  \<open>deduplicateResults\<close> removes nothing: it gives one item for every distinct hash of
  title and content (a missing title or content counts as the empty string), the first
  result with that hash with every later one merged into it. This holds whatever
  \<open>toLowerCase\<close>, the hash and the arithmetic of numbers do.
\<close>

theorem dedup_keeps_or_merges:
  "mergeAndDedupe ops toLowerCase items =
     map (\<lambda>k. merge_group (merge_trend ops) (group_of (trend_key toLowerCase) k items))
       (set_spread (List.map_filter (trend_key toLowerCase) items))
   \<and> deduplicateResults md5 results =
     map (\<lambda>h. merge_group mergeResults (group_of (hash_key md5) h results))
       (set_spread (map (contentHash md5) results))"
  using mergeAndDedupe_groups deduplicateResults_groups by blast

lemma example_trends_keys:
  "set_spread (List.map_filter (trend_key ascii_lower) example_trends) = [''snail cream'']"
  by code_simp

lemma example_results_keys:
  "set_spread (map (contentHash id) example_results) = [''Glow Serumreview'']"
  by code_simp

theorem dedup_keeps_or_merges_witness:
  "mergeAndDedupe exact_numbers ascii_lower example_trends =
     [merge_group (merge_trend exact_numbers)
        (group_of (trend_key ascii_lower) ''snail cream'' example_trends)]
   \<and> deduplicateResults id example_results =
     [merge_group mergeResults (group_of (hash_key id) ''Glow Serumreview'' example_results)]"
  using dedup_keeps_or_merges [of exact_numbers ascii_lower example_trends id example_results]
  by (simp add: example_trends_keys example_results_keys)

text \<open>
  C4, as stated, fails on \<open>deduplicateResults\<close>: three results with one title, URL and
  content are merged into one whose \<open>sources\<close> names \<open>jina\<close> twice and leaves out
  \<open>exa\<close>, and whose mentions are those of the first result, not the sum.
\<close>

theorem mergeResults_sources_counterexample:
  "map sources (deduplicateResults id example_results) = [Some [Some ''jina'', Some ''jina'']]
   \<and> map r_mentions (deduplicateResults id example_results) = [Some (Exact 5)]"
  by code_simp

text \<open>
  C4, amended. In \<open>mergeAndDedupe\<close>, when at least two items share a non-empty product
  name up to \<open>toLowerCase\<close>, exactly one output item carries that name; its platforms
  are the duplicate-free union of theirs, its images the duplicate-free union of
  theirs, and its mentions are theirs added up from left to right with the \<open>+\<close> of
  JavaScript numbers, a missing or falsy counter or running total counting as \<open>0\<close>. In
  \<open>deduplicateResults\<close>, the output item at position \<open>i\<close> stands for the results
  with the \<open>i\<close>-th distinct hash: its images are all their images one after the other,
  its \<open>sources\<close> are those of the first result followed by the \<open>source\<close> of every
  later one, repetitions kept, and its mentions are those of the first result.
\<close>

theorem merged_item_fields:
  "(2 \<le> length (filter (\<lambda>x. trend_key toLowerCase x = Some k) items) \<longrightarrow>
      (\<exists>out. filter (\<lambda>out. trend_key toLowerCase out = Some k)
                (mergeAndDedupe ops toLowerCase items) = [out] \<and>
         platforms out =
           Some (set_spread (concat (map (\<lambda>x. or_empty (platforms x))
                                      (filter (\<lambda>x. trend_key toLowerCase x = Some k) items)))) \<and>
         images out =
           Some (set_spread (concat (map (\<lambda>x. or_empty (images x))
                                      (filter (\<lambda>x. trend_key toLowerCase x = Some k) items)))) \<and>
         mentions out =
           Some (js_sum ops (map mentions
                               (filter (\<lambda>x. trend_key toLowerCase x = Some k) items)))))
   \<and> (i < length (deduplicateResults md5 results) \<longrightarrow>
        (let h = set_spread (map (contentHash md5) results) ! i;
             g = filter (\<lambda>r. contentHash md5 r = h) results;
             out = deduplicateResults md5 results ! i
         in g \<noteq> [] \<and>
            or_empty (r_images out) = concat (map (\<lambda>x. or_empty (r_images x)) g) \<and>
            or_empty (sources out) = or_empty (sources (hd g)) @ map source (tl g) \<and>
            r_mentions out = r_mentions (hd g)))"
proof (intro conjI impI)
  let ?key = "trend_key toLowerCase"
  let ?g = "filter (\<lambda>x. ?key x = Some k) items"
  assume two: "2 \<le> length ?g"
  then obtain a b gs where g: "?g = a # b # gs"
    by (cases ?g; cases "tl ?g") auto
  then have ne: "group_of ?key k items \<noteq> []" by (simp add: group_of_def)
  let ?out = "merge_group (merge_trend ops) (group_of ?key k items)"
  have out: "?out = foldl (merge_trend ops) a (b # gs)"
    using g by (simp add: merge_group_def group_of_def)
  have "filter (\<lambda>out. ?key out = Some k) (mergeAndDedupe ops toLowerCase items) = [?out]"
    by (rule mergeAndDedupe_one_per_name [OF ne])
  moreover have "platforms ?out = Some (set_spread (concat (map (\<lambda>x. or_empty (platforms x)) ?g)))"
    unfolding out using foldl_merge_trend_platforms [of "b # gs" ops a] g by simp
  moreover have "images ?out = Some (set_spread (concat (map (\<lambda>x. or_empty (images x)) ?g)))"
    unfolding out using foldl_merge_trend_images [of "b # gs" ops a] g by simp
  moreover have "mentions ?out = Some (js_sum ops (map mentions ?g))"
    unfolding out using foldl_merge_trend_mentions [of "b # gs" ops a] g
    by (simp add: js_sum_def)
  ultimately show "\<exists>out. filter (\<lambda>out. ?key out = Some k) (mergeAndDedupe ops toLowerCase items) = [out] \<and>
      platforms out = Some (set_spread (concat (map (\<lambda>x. or_empty (platforms x)) ?g))) \<and>
      images out = Some (set_spread (concat (map (\<lambda>x. or_empty (images x)) ?g))) \<and>
      mentions out = Some (js_sum ops (map mentions ?g))"
    by blast
next
  let ?ks = "set_spread (map (contentHash md5) results)"
  assume i: "i < length (deduplicateResults md5 results)"
  then have i': "i < length ?ks" by (simp add: deduplicateResults_groups)
  let ?h = "?ks ! i"
  let ?g = "filter (\<lambda>r. contentHash md5 r = ?h) results"
  have g_eq: "group_of (hash_key md5) ?h results = ?g"
    by (simp add: group_of_def hash_key_def)
  have out: "deduplicateResults md5 results ! i = merge_group mergeResults ?g"
    using i' by (simp add: deduplicateResults_groups g_eq)
  from i' have "?h \<in> set ?ks" by simp
  then have "?h \<in> set (List.map_filter (hash_key md5) results)"
    by (simp add: set_spread_set map_filter_hash_key)
  then have ne: "?g \<noteq> []" using group_nonempty [of ?h "hash_key md5" results] g_eq by simp
  then obtain a gs where g: "?g = a # gs" by (cases ?g) auto
  show "let h = ?ks ! i; g = filter (\<lambda>r. contentHash md5 r = h) results;
            out = deduplicateResults md5 results ! i
        in g \<noteq> [] \<and>
           or_empty (r_images out) = concat (map (\<lambda>x. or_empty (r_images x)) g) \<and>
           or_empty (sources out) = or_empty (sources (hd g)) @ map source (tl g) \<and>
           r_mentions out = r_mentions (hd g)"
    unfolding Let_def out using g by (simp add: merge_group_def foldl_mergeResults_fields)
qed

lemma example_trends_group:
  "filter (\<lambda>x. trend_key ascii_lower x = Some ''snail cream'') example_trends =
     [example_trends ! 0, example_trends ! 2]"
  by code_simp

theorem merged_item_fields_witness:
  "2 \<le> length (filter (\<lambda>x. trend_key ascii_lower x = Some ''snail cream'') example_trends)
   \<and> (\<exists>out. filter (\<lambda>out. trend_key ascii_lower out = Some ''snail cream'')
               (mergeAndDedupe exact_numbers ascii_lower example_trends) = [out]
         \<and> platforms out = Some [''TikTok'', ''Instagram'']
         \<and> images out = Some [''a.png'', ''b.png'']
         \<and> mentions out = Some (Exact 5))
   \<and> 0 < length (deduplicateResults id example_results)
   \<and> or_empty (r_images (deduplicateResults id example_results ! 0)) =
        [''glow.png'', ''glow.png'', ''glow.png'']
   \<and> or_empty (sources (deduplicateResults id example_results ! 0)) = [Some ''jina'', Some ''jina'']
   \<and> r_mentions (deduplicateResults id example_results ! 0) = Some (Exact 5)"
proof -
  have two: "2 \<le> length (filter (\<lambda>x. trend_key ascii_lower x = Some ''snail cream'') example_trends)"
    by (simp add: example_trends_group)
  have len: "0 < length (deduplicateResults id example_results)"
    by code_simp
  have p: "set_spread (concat (map (\<lambda>x. or_empty (platforms x))
             (filter (\<lambda>x. trend_key ascii_lower x = Some ''snail cream'') example_trends))) =
           [''TikTok'', ''Instagram'']"
    by code_simp
  have im: "set_spread (concat (map (\<lambda>x. or_empty (images x))
             (filter (\<lambda>x. trend_key ascii_lower x = Some ''snail cream'') example_trends))) =
           [''a.png'', ''b.png'']"
    by code_simp
  have m: "js_sum exact_numbers (map mentions
             (filter (\<lambda>x. trend_key ascii_lower x = Some ''snail cream'') example_trends)) = Exact 5"
    by code_simp
  have g: "filter (\<lambda>r. contentHash id r = set_spread (map (contentHash id) example_results) ! 0)
             example_results = example_results"
    by code_simp
  have r1: "concat (map (\<lambda>x. or_empty (r_images x)) example_results) =
              [''glow.png'', ''glow.png'', ''glow.png'']"
    by code_simp
  have r2: "or_empty (sources (hd example_results)) @ map source (tl example_results) =
              [Some ''jina'', Some ''jina'']"
    by code_simp
  have r3: "r_mentions (hd example_results) = Some (Exact 5)"
    by code_simp
  from merged_item_fields [of ascii_lower "''snail cream''" example_trends exact_numbers
      0 id example_results] two len
  show ?thesis
    unfolding Let_def g p im m r1 r2 r3 by blast
qed


section \<open>Ranking\<close>

lemma mset_insert_before: "mset (insert_before ahead x ys) = add_mset x (mset ys)"
  by (induction ys) simp_all

lemma mset_stable_sort: "mset (stable_sort ahead xs) = mset xs"
  by (induction xs) (simp_all add: stable_sort_def mset_insert_before)

lemma set_stable_sort: "set (stable_sort ahead xs) = set xs"
  using mset_stable_sort [of ahead xs] by (metis set_mset_mset)

lemma set_insert_before: "set (insert_before ahead x ys) = insert x (set ys)"
  using mset_insert_before [of ahead x ys] by (metis set_mset_mset set_mset_add_mset_insert)

lemma sorted_insert_before:
  assumes total: "\<And>a b. a \<in> A \<Longrightarrow> b \<in> A \<Longrightarrow> ahead a b \<or> ahead b a"
    and trans: "\<And>a b c. a \<in> A \<Longrightarrow> b \<in> A \<Longrightarrow> c \<in> A \<Longrightarrow> ahead a b \<Longrightarrow> ahead b c \<Longrightarrow> ahead a c"
    and x: "x \<in> A"
  shows "set ys \<subseteq> A \<Longrightarrow> sorted_wrt ahead ys \<Longrightarrow> sorted_wrt ahead (insert_before ahead x ys)"
proof (induction ys)
  case Nil
  show ?case by simp
next
  case (Cons y ys)
  from Cons.prems have y: "y \<in> A" and ys: "set ys \<subseteq> A"
    and tail: "sorted_wrt ahead ys" and head: "\<And>z. z \<in> set ys \<Longrightarrow> ahead y z"
    by simp_all
  show ?case
  proof (cases "ahead x y")
    case True
    have "ahead x z" if "z \<in> set ys" for z
      using trans [OF x y _ True head [OF that]] that ys by blast
    with True Cons.prems show ?thesis by simp
  next
    case False
    with total [OF x y] have "ahead y x" by blast
    with False head Cons.IH [OF ys tail] show ?thesis
      by (simp add: set_insert_before)
  qed
qed

lemma sorted_stable_sort:
  assumes total: "\<And>a b. a \<in> A \<Longrightarrow> b \<in> A \<Longrightarrow> ahead a b \<or> ahead b a"
    and trans: "\<And>a b c. a \<in> A \<Longrightarrow> b \<in> A \<Longrightarrow> c \<in> A \<Longrightarrow> ahead a b \<Longrightarrow> ahead b c \<Longrightarrow> ahead a c"
  shows "set xs \<subseteq> A \<Longrightarrow> sorted_wrt ahead (stable_sort ahead xs)"
proof (induction xs)
  case Nil
  show ?case by (simp add: stable_sort_def)
next
  case (Cons x xs)
  then have x: "x \<in> A" and xs: "set xs \<subseteq> A" by simp_all
  have "sorted_wrt ahead (insert_before ahead x (stable_sort ahead xs))"
    by (rule sorted_insert_before [OF total trans x])
       (simp_all add: set_stable_sort xs Cons.IH)
  then show ?case by (simp add: stable_sort_def)
qed

lemma filter_insert_before:
  "(\<And>y. y \<in> set ys \<Longrightarrow> P x \<Longrightarrow> P y \<Longrightarrow> ahead x y) \<Longrightarrow>
     filter P (insert_before ahead x ys) = (if P x then x # filter P ys else filter P ys)"
  by (induction ys) auto

lemma filter_stable_sort:
  "(\<And>x y. x \<in> set xs \<Longrightarrow> y \<in> set xs \<Longrightarrow> P x \<Longrightarrow> P y \<Longrightarrow> ahead x y) \<Longrightarrow>
     filter P (stable_sort ahead xs) = filter P xs"
proof (induction xs)
  case Nil
  show ?case by (simp add: stable_sort_def)
next
  case (Cons x xs)
  have "filter P (insert_before ahead x (stable_sort ahead xs)) =
          (if P x then x # filter P (stable_sort ahead xs) else filter P (stable_sort ahead xs))"
    by (rule filter_insert_before) (simp add: set_stable_sort Cons.prems)
  moreover have "filter P (stable_sort ahead xs) = filter P xs"
    by (rule Cons.IH) (simp add: Cons.prems)
  ultimately show ?case by (simp add: stable_sort_def)
qed

lemma consistent_number:
  assumes "consistent comparefn xs" "a \<in> set xs" "b \<in> set xs"
  shows "comparefn a b \<noteq> NotANumber"
proof -
  from assms(1) have "\<forall>a \<in> set xs. \<forall>b \<in> set xs. comparefn a b \<noteq> NotANumber"
    unfolding consistent_def by (elim conjE)
  with assms(2,3) show ?thesis by blast
qed

lemma consistent_refl:
  assumes "consistent comparefn xs" "a \<in> set xs"
  shows "comparefn a a = Zero"
proof -
  from assms(1) have "\<forall>a \<in> set xs. comparefn a a = Zero"
    unfolding consistent_def by (elim conjE)
  with assms(2) show ?thesis by blast
qed

lemma consistent_sym:
  assumes "consistent comparefn xs" "a \<in> set xs" "b \<in> set xs" "comparefn a b = Zero"
  shows "comparefn b a = Zero"
proof -
  from assms(1) have "\<forall>a \<in> set xs. \<forall>b \<in> set xs. comparefn a b = Zero \<longrightarrow> comparefn b a = Zero"
    unfolding consistent_def by (elim conjE)
  with assms(2,3,4) show ?thesis by blast
qed

lemma consistent_transitive:
  assumes "consistent comparefn xs" "a \<in> set xs" "b \<in> set xs" "c \<in> set xs"
  shows "comparefn a b = Zero \<Longrightarrow> comparefn b c = Zero \<Longrightarrow> comparefn a c = Zero"
    and "comparefn a b = Negative \<Longrightarrow> comparefn b c = Negative \<Longrightarrow> comparefn a c = Negative"
    and "comparefn a b = Positive \<Longrightarrow> comparefn b c = Positive \<Longrightarrow> comparefn a c = Positive"
proof -
  from assms(1) have "\<forall>a \<in> set xs. \<forall>b \<in> set xs. \<forall>c \<in> set xs.
        (comparefn a b = Zero \<and> comparefn b c = Zero \<longrightarrow> comparefn a c = Zero) \<and>
        (comparefn a b = Negative \<and> comparefn b c = Negative \<longrightarrow> comparefn a c = Negative) \<and>
        (comparefn a b = Positive \<and> comparefn b c = Positive \<longrightarrow> comparefn a c = Positive)"
    unfolding consistent_def by (elim conjE)
  with assms(2,3,4) have t:
    "(comparefn a b = Zero \<and> comparefn b c = Zero \<longrightarrow> comparefn a c = Zero) \<and>
     (comparefn a b = Negative \<and> comparefn b c = Negative \<longrightarrow> comparefn a c = Negative) \<and>
     (comparefn a b = Positive \<and> comparefn b c = Positive \<longrightarrow> comparefn a c = Positive)"
    by blast
  from t show "comparefn a b = Zero \<Longrightarrow> comparefn b c = Zero \<Longrightarrow> comparefn a c = Zero" by blast
  from t show "comparefn a b = Negative \<Longrightarrow> comparefn b c = Negative \<Longrightarrow> comparefn a c = Negative"
    by blast
  from t show "comparefn a b = Positive \<Longrightarrow> comparefn b c = Positive \<Longrightarrow> comparefn a c = Positive"
    by blast
qed

lemma consistent_total:
  assumes c: "consistent comparefn xs" and a: "a \<in> set xs" and b: "b \<in> set xs"
  shows "comparefn a b \<noteq> Positive \<or> comparefn b a \<noteq> Positive"
proof (rule ccontr)
  assume "\<not> (comparefn a b \<noteq> Positive \<or> comparefn b a \<noteq> Positive)"
  then have ab: "comparefn a b = Positive" and ba: "comparefn b a = Positive" by simp_all
  have "comparefn a a = Positive" by (rule consistent_transitive(3) [OF c a b a ab ba])
  with consistent_refl [OF c a] show False by simp
qed

lemma consistent_flip:
  assumes c: "consistent comparefn xs" and a: "a \<in> set xs" and b: "b \<in> set xs"
    and ab: "comparefn a b = Positive"
  shows "comparefn b a = Negative"
proof (cases "comparefn b a")
  case Negative
  then show ?thesis .
next
  case Zero
  from consistent_sym [OF c b a Zero] ab show ?thesis by simp
next
  case Positive
  with consistent_total [OF c a b] ab show ?thesis by simp
next
  case NotANumber
  with consistent_number [OF c b a] show ?thesis by simp
qed

lemma consistent_trans:
  assumes c: "consistent comparefn xs" and a: "a \<in> set xs" and b: "b \<in> set xs" and x: "x \<in> set xs"
    and ab: "comparefn a b \<noteq> Positive" and bx: "comparefn b x \<noteq> Positive"
  shows "comparefn a x \<noteq> Positive"
proof
  assume ax: "comparefn a x = Positive"
  have xa: "comparefn x a = Negative" by (rule consistent_flip [OF c a x ax])
  show False
  proof (cases "comparefn a b")
    case Negative
    have xb: "comparefn x b = Negative"
      by (rule consistent_transitive(2) [OF c x a b xa Negative])
    show False
    proof (cases "comparefn b x")
      case Negative
      have "comparefn x x = Negative"
        by (rule consistent_transitive(2) [OF c x b x xb Negative])
      with consistent_refl [OF c x] show False by simp
    next
      case Zero
      from consistent_sym [OF c b x Zero] xb show False by simp
    next
      case Positive
      with bx show False by simp
    next
      case NotANumber
      with consistent_number [OF c b x] show False by simp
    qed
  next
    case Zero
    show False
    proof (cases "comparefn b x")
      case Negative
      have "comparefn x b = Positive"
      proof (cases "comparefn x b")
        case Negative
        have "comparefn b b = Negative"
          by (rule consistent_transitive(2) [OF c b x b \<open>comparefn b x = Negative\<close> Negative])
        with consistent_refl [OF c b] show ?thesis by simp
      next
        case Zero
        from consistent_sym [OF c x b Zero] \<open>comparefn b x = Negative\<close> show ?thesis by simp
      next
        case Positive
        then show ?thesis .
      next
        case NotANumber
        with consistent_number [OF c x b] show ?thesis by simp
      qed
      from consistent_transitive(3) [OF c a x b ax this] \<open>comparefn a b = Zero\<close>
      show False by simp
    next
      case bz: Zero
      from consistent_transitive(1) [OF c a b x Zero bz] ax show False by simp
    next
      case Positive
      with bx show False by simp
    next
      case NotANumber
      with consistent_number [OF c b x] show False by simp
    qed
  next
    case Positive
    with ab show False by simp
  next
    case NotANumber
    with consistent_number [OF c a b] show False by simp
  qed
qed

lemma consistent_equal:
  assumes c: "consistent comparefn xs" and x: "x \<in> set xs" and a: "a \<in> set xs" and b: "b \<in> set xs"
    and xa: "comparefn x a = Zero" and xb: "comparefn x b = Zero"
  shows "comparefn a b \<noteq> Positive"
proof -
  have "comparefn a x = Zero" by (rule consistent_sym [OF c x a xa])
  from consistent_transitive(1) [OF c a x b this xb] show ?thesis by simp
qed

lemma js_sort_elements: "elements_of (js_sort comparefn xs) = mset xs"
  by (simp add: js_sort_def mset_stable_sort)

lemma js_sort_consistent:
  assumes c: "consistent comparefn xs"
  shows "js_sort comparefn xs = InOrder (stable_sort (\<lambda>x y. comparefn x y \<noteq> Positive) xs)"
    and "sorted_wrt (\<lambda>a b. comparefn a b \<noteq> Positive)
           (stable_sort (\<lambda>x y. comparefn x y \<noteq> Positive) xs)"
    and "x \<in> set xs \<Longrightarrow>
           filter (\<lambda>r. comparefn x r = Zero) (stable_sort (\<lambda>x y. comparefn x y \<noteq> Positive) xs) =
           filter (\<lambda>r. comparefn x r = Zero) xs"
proof -
  show "js_sort comparefn xs = InOrder (stable_sort (\<lambda>x y. comparefn x y \<noteq> Positive) xs)"
    using c by (simp add: js_sort_def)
  show "sorted_wrt (\<lambda>a b. comparefn a b \<noteq> Positive)
          (stable_sort (\<lambda>x y. comparefn x y \<noteq> Positive) xs)"
  proof (rule sorted_stable_sort [where A = "set xs"])
    fix a b assume "a \<in> set xs" "b \<in> set xs"
    then show "comparefn a b \<noteq> Positive \<or> comparefn b a \<noteq> Positive"
      by (rule consistent_total [OF c])
  next
    fix a b z
    assume "a \<in> set xs" "b \<in> set xs" "z \<in> set xs"
      "comparefn a b \<noteq> Positive" "comparefn b z \<noteq> Positive"
    then show "comparefn a z \<noteq> Positive" by (rule consistent_trans [OF c])
  next
    show "set xs \<subseteq> set xs" by simp
  qed
  show "filter (\<lambda>r. comparefn x r = Zero) (stable_sort (\<lambda>x y. comparefn x y \<noteq> Positive) xs) =
          filter (\<lambda>r. comparefn x r = Zero) xs" if x: "x \<in> set xs"
  proof (rule filter_stable_sort)
    fix a b
    assume "a \<in> set xs" "b \<in> set xs" "comparefn x a = Zero" "comparefn x b = Zero"
    then show "comparefn a b \<noteq> Positive" by (rule consistent_equal [OF c x])
  qed
qed

lemma process_compare_ahead:
  "process_compare a b \<noteq> Positive \<longleftrightarrow>
     hasMedia b < hasMedia a \<or> (hasMedia a = hasMedia b \<and> date_or_epoch b \<le> date_or_epoch a)"
  by (auto simp: process_compare_def sign_of_difference_def)

lemma process_compare_sign:
  "process_compare a b =
     (if hasMedia b < hasMedia a \<or> (hasMedia a = hasMedia b \<and> date_or_epoch b < date_or_epoch a)
      then Negative
      else if hasMedia a = hasMedia b \<and> date_or_epoch a = date_or_epoch b then Zero
      else Positive)"
  by (auto simp: process_compare_def sign_of_difference_def)

lemma process_compare_consistent: "consistent process_compare xs"
  unfolding consistent_def
proof (intro conjI ballI)
  fix a b c :: "'a raw_result"
  show "process_compare a b \<noteq> NotANumber" by (simp add: process_compare_sign)
  show "process_compare a a = Zero" by (simp add: process_compare_sign)
  show "process_compare a b = Zero \<longrightarrow> process_compare b a = Zero"
    by (simp add: process_compare_sign split: if_splits)
  show "process_compare a b = Zero \<and> process_compare b c = Zero \<longrightarrow> process_compare a c = Zero"
    by (simp add: process_compare_sign split: if_splits)
  show "process_compare a b = Negative \<and> process_compare b c = Negative \<longrightarrow>
          process_compare a c = Negative"
    by (auto simp: process_compare_sign split: if_splits)
  show "process_compare a b = Positive \<and> process_compare b c = Positive \<longrightarrow>
          process_compare a c = Positive"
    by (auto simp: process_compare_sign split: if_splits)
qed

lemma mset_sub_add: "(A::'a multiset) \<subseteq># B \<Longrightarrow> A \<subseteq># add_mset r B"
  by (meson multi_psub_of_add_self subset_mset.le_less subset_mset.le_less_trans)

lemma unique_by_url_sub: "mset (unique_by_url seen rs) \<subseteq># mset rs"
proof (induction rs arbitrary: seen)
  case Nil
  show ?case by simp
next
  case (Cons r rs)
  show ?case
  proof (cases "url r \<in> set seen")
    case True
    with mset_sub_add [OF Cons.IH [of seen]] show ?thesis by simp
  next
    case False
    with Cons.IH [of "seen @ [url r]"] show ?thesis by simp
  qed
qed

lemma unique_by_url_urls: "url ` set (unique_by_url seen rs) = url ` set rs - set seen"
proof (induction rs arbitrary: seen)
  case Nil
  show ?case by simp
next
  case (Cons r rs)
  show ?case
  proof (cases "url r \<in> set seen")
    case True
    with Cons.IH [of seen] show ?thesis by auto
  next
    case False
    with Cons.IH [of "seen @ [url r]"] show ?thesis by auto
  qed
qed

lemma unique_by_url_distinct: "distinct (map url (unique_by_url seen rs))"
proof (induction rs arbitrary: seen)
  case Nil
  show ?case by simp
next
  case (Cons r rs)
  show ?case
  proof (cases "url r \<in> set seen")
    case True
    with Cons.IH [of seen] show ?thesis by simp
  next
    case False
    have "url r \<notin> url ` set (unique_by_url (seen @ [url r]) rs)"
      by (simp add: unique_by_url_urls)
    with False Cons.IH [of "seen @ [url r]"] show ?thesis by simp
  qed
qed

lemma unique_by_url_first:
  "r \<in> set (unique_by_url seen rs) \<Longrightarrow> find (\<lambda>x. url x = url r) rs = Some r"
proof (induction rs arbitrary: seen)
  case Nil
  then show ?case by simp
next
  case (Cons a rs)
  show ?case
  proof (cases "url a \<in> set seen")
    case True
    with Cons.prems have r: "r \<in> set (unique_by_url seen rs)" by simp
    then have "url r \<in> url ` set rs - set seen"
      using unique_by_url_urls [of seen rs] by blast
    with True have "url a \<noteq> url r" by auto
    with Cons.IH [OF r] show ?thesis by simp
  next
    case False
    show ?thesis
    proof (cases "r = a")
      case True
      then show ?thesis by simp
    next
      case ne: False
      with False Cons.prems have r: "r \<in> set (unique_by_url (seen @ [url a]) rs)" by simp
      then have "url r \<in> url ` set rs - set (seen @ [url a])"
        using unique_by_url_urls [of "seen @ [url a]" rs] by blast
      then have "url a \<noteq> url r" by auto
      with Cons.IH [OF r] show ?thesis by simp
    qed
  qed
qed

lemma processResults_sorted:
  "processResults rs = InOrder (stable_sort (\<lambda>x y. process_compare x y \<noteq> Positive) (unique_by_url [] rs))"
  by (simp add: processResults_def js_sort_def process_compare_consistent)

text \<open>
  C6, as stated, fails: a result without media and with relevance 10 is ranked before
  one with media and relevance 0, and the order of two results changes with the
  reading of the clock.
\<close>

theorem rankResults_counterexample:
  "rankResults exact_numbers (Steady 0) [with_media, relevant] = InOrder [relevant, with_media]
   \<and> rankResults exact_numbers (Steady (20 * day)) [old_item, fresh_item] =
       InOrder [fresh_item, old_item]
   \<and> rankResults exact_numbers (Steady (40 * day)) [old_item, fresh_item] =
       InOrder [old_item, fresh_item]"
  by code_simp

text \<open>
  C6, amended. The output of \<open>rankResults\<close> always holds exactly the results of its
  input. Its order is fixed when the reading of the clock does not change during the
  sort and the comparator is consistent on the input (which asks, among other things,
  that it never returns \<open>NaN\<close>): then for any two results of the output the comparator
  does not ask for the later one to come first, that is, \<open>scoreLater - scoreEarlier\<close> is
  not positive, where the score of a result is the sum, in the arithmetic of JavaScript
  numbers, of 10 times the relevance, 5 times the number of media, a recency bonus of
  10 minus the age in days (not below 0) and 3 for the sources \<open>exa\<close> and \<open>firecrawl\<close>;
  and the results that the comparator takes for equal to a given one keep their input
  order. \<open>processResults\<close> keeps, for every URL of the input, the first result with that
  URL and no other, and orders them by the number of media, descending, then by
  published date, descending.
\<close>

theorem rankResults_by_total_score:
  "elements_of (rankResults ops clock rs) = mset rs
   \<and> (consistent (\<lambda>a b. sign_of ops (rank_compare ops t a b)) rs \<longrightarrow>
        (\<exists>out. rankResults ops (Steady t) rs = InOrder out
           \<and> sorted_wrt
               (\<lambda>a b. sign_of ops (js_sub ops (rank_score ops t b) (rank_score ops t a)) \<noteq> Positive)
               out
           \<and> (\<forall>x \<in> set rs.
                 filter (\<lambda>r. sign_of ops (rank_compare ops t x r) = Zero) out =
                 filter (\<lambda>r. sign_of ops (rank_compare ops t x r) = Zero) rs)))
   \<and> (\<exists>out. processResults rs = InOrder out
         \<and> distinct (map url out)
         \<and> set (map url out) = set (map url rs)
         \<and> (\<forall>r \<in> set out. find (\<lambda>x. url x = url r) rs = Some r)
         \<and> sorted_wrt (\<lambda>a b. hasMedia b < hasMedia a \<or>
                              (hasMedia a = hasMedia b \<and> date_or_epoch b \<le> date_or_epoch a))
              out)"
proof (intro conjI impI)
  show "elements_of (rankResults ops clock rs) = mset rs"
    by (cases clock) (simp_all add: rankResults_def js_sort_elements)
next
  let ?cmp = "\<lambda>a b. sign_of ops (rank_compare ops t a b)"
  let ?out = "stable_sort (\<lambda>x y. ?cmp x y \<noteq> Positive) rs"
  assume c: "consistent ?cmp rs"
  have "rankResults ops (Steady t) rs = InOrder ?out"
    using js_sort_consistent(1) [OF c] by (simp add: rankResults_def)
  moreover have "sorted_wrt
      (\<lambda>a b. sign_of ops (js_sub ops (rank_score ops t b) (rank_score ops t a)) \<noteq> Positive) ?out"
    using js_sort_consistent(2) [OF c] by (simp add: rank_compare_def)
  moreover have "\<forall>x \<in> set rs. filter (\<lambda>r. ?cmp x r = Zero) ?out = filter (\<lambda>r. ?cmp x r = Zero) rs"
    using js_sort_consistent(3) [OF c] by blast
  ultimately show "\<exists>out. rankResults ops (Steady t) rs = InOrder out
      \<and> sorted_wrt
          (\<lambda>a b. sign_of ops (js_sub ops (rank_score ops t b) (rank_score ops t a)) \<noteq> Positive) out
      \<and> (\<forall>x \<in> set rs. filter (\<lambda>r. ?cmp x r = Zero) out = filter (\<lambda>r. ?cmp x r = Zero) rs)"
    by blast
next
  let ?u = "unique_by_url [] rs"
  let ?out = "stable_sort (\<lambda>x y. process_compare x y \<noteq> Positive) ?u"
  have m: "mset ?out = mset ?u" by (rule mset_stable_sort)
  have s: "set ?out = set ?u" by (rule set_stable_sort)
  have "mset (map url ?out) = mset (map url ?u)" using m by (metis mset_map)
  then have d: "distinct (map url ?out)"
    using unique_by_url_distinct [of "[]" rs] by (metis mset_eq_imp_distinct_iff)
  have u: "set (map url ?out) = set (map url rs)"
    using unique_by_url_urls [of "[]" rs] s by simp
  have f: "\<forall>r \<in> set ?out. find (\<lambda>x. url x = url r) rs = Some r"
    using unique_by_url_first [of _ "[]" rs] s by blast
  have "sorted_wrt (\<lambda>x y. process_compare x y \<noteq> Positive) ?out"
    by (rule js_sort_consistent(2) [OF process_compare_consistent])
  then have o: "sorted_wrt (\<lambda>a b. hasMedia b < hasMedia a \<or>
      (hasMedia a = hasMedia b \<and> date_or_epoch b \<le> date_or_epoch a)) ?out"
    by (simp add: process_compare_ahead)
  from processResults_sorted [of rs] d u f o
  show "\<exists>out. processResults rs = InOrder out
      \<and> distinct (map url out)
      \<and> set (map url out) = set (map url rs)
      \<and> (\<forall>r \<in> set out. find (\<lambda>x. url x = url r) rs = Some r)
      \<and> sorted_wrt (\<lambda>a b. hasMedia b < hasMedia a \<or>
                           (hasMedia a = hasMedia b \<and> date_or_epoch b \<le> date_or_epoch a)) out"
    by blast
qed

lemma example_ranking_consistent:
  "consistent (\<lambda>a b. sign_of exact_numbers (rank_compare exact_numbers (20 * day) a b))
     [old_item, fresh_item]"
  by code_simp

lemma example_ranking:
  "rankResults exact_numbers (Steady (20 * day)) [old_item, fresh_item] =
     InOrder [fresh_item, old_item]"
  by code_simp

lemma example_scores:
  "map (rank_score exact_numbers (20 * day)) [fresh_item, old_item] = [Exact 15, Exact 10]"
  by code_simp

lemma example_pages_processed:
  "processResults example_pages = InOrder [example_pages ! 2, example_pages ! 0]"
  by code_simp

theorem rankResults_by_total_score_witness:
  "consistent (\<lambda>a b. sign_of exact_numbers (rank_compare exact_numbers (20 * day) a b))
     [old_item, fresh_item]
   \<and> elements_of (rankResults exact_numbers (Steady (20 * day)) [old_item, fresh_item]) =
       mset [old_item, fresh_item]
   \<and> rankResults exact_numbers (Steady (20 * day)) [old_item, fresh_item] =
       InOrder [fresh_item, old_item]
   \<and> sorted_wrt
       (\<lambda>a b. sign_of exact_numbers
                 (js_sub exact_numbers (rank_score exact_numbers (20 * day) b)
                    (rank_score exact_numbers (20 * day) a)) \<noteq> Positive)
       [fresh_item, old_item]
   \<and> map (rank_score exact_numbers (20 * day)) [fresh_item, old_item] = [Exact 15, Exact 10]
   \<and> processResults example_pages = InOrder [example_pages ! 2, example_pages ! 0]
   \<and> distinct (map url [example_pages ! 2, example_pages ! 0])
   \<and> set (map url [example_pages ! 2, example_pages ! 0]) = set (map url example_pages)"
proof -
  let ?cmp = "\<lambda>a b. sign_of exact_numbers (rank_compare exact_numbers (20 * day) a b)"
  note ranked = rankResults_by_total_score
    [of exact_numbers "Steady (20 * day)" "[old_item, fresh_item]" "20 * day"]
  note processed = rankResults_by_total_score [of exact_numbers Ticking example_pages 0]
  have c: "consistent ?cmp [old_item, fresh_item]"
    by (rule example_ranking_consistent)
  from ranked have
    e: "elements_of (rankResults exact_numbers (Steady (20 * day)) [old_item, fresh_item]) =
          mset [old_item, fresh_item]"
    by (rule conjunct1)
  from ranked c obtain out where
    "rankResults exact_numbers (Steady (20 * day)) [old_item, fresh_item] = InOrder out"
    "sorted_wrt
       (\<lambda>a b. sign_of exact_numbers
                 (js_sub exact_numbers (rank_score exact_numbers (20 * day) b)
                    (rank_score exact_numbers (20 * day) a)) \<noteq> Positive) out"
    by blast
  then have s: "sorted_wrt
       (\<lambda>a b. sign_of exact_numbers
                 (js_sub exact_numbers (rank_score exact_numbers (20 * day) b)
                    (rank_score exact_numbers (20 * day) a)) \<noteq> Positive)
       [fresh_item, old_item]"
    by (simp add: example_ranking)
  from processed obtain pages where
    "processResults example_pages = InOrder pages" "distinct (map url pages)"
    "set (map url pages) = set (map url example_pages)"
    by blast
  then have p: "distinct (map url [example_pages ! 2, example_pages ! 0])"
    "set (map url [example_pages ! 2, example_pages ! 0]) = set (map url example_pages)"
    by (simp_all add: example_pages_processed)
  from c e example_ranking s example_scores example_pages_processed p show ?thesis
    by blast
qed


section \<open>Creating a tracker\<close>

lemma createTracker_payload:
  "trackers (snd (createTracker_body e d config)) = trackers d
   \<or> (\<exists>row. trackers (snd (createTracker_body e d config)) = trackers d @ [row]
         \<and> t_is_public row = Some True)"
  by (auto simp: createTracker_body_def db_request_def insert_tracker_def Let_def
      split: outcome.splits option.splits db_fault.splits)

lemma createTracker_returned:
  "fst (createTracker_body e d config) = Returns (Success (Some row)) \<Longrightarrow>
     t_is_public row = Some True \<and> row \<in> set (trackers (snd (createTracker_body e d config)))"
  by (auto simp: createTracker_body_def db_request_def insert_tracker_def Let_def
      split: outcome.splits option.splits db_fault.splits if_splits)

lemma try_catch_db_snd: "snd (try_catch_db m h) = snd m"
  by (simp add: try_catch_db_def)

lemma try_catch_returns:
  "try_catch m h = Returns v \<Longrightarrow> (\<And>x. h x \<noteq> Returns v) \<Longrightarrow> m = Returns v"
  by (cases m) (auto simp: try_catch_def)

text \<open>
  C9. Whatever the configuration, also with \<open>isPublic\<close> set to \<open>false\<close>, \<open>createTracker\<close>
  leaves the table as it was or adds one row, and that row has \<open>is_public = true\<close>; the
  tracker that it returns on success is that row.
\<close>

theorem createTracker_always_public:
  "(trackers (snd (createTracker e d config)) = trackers d
      \<or> (\<exists>row. trackers (snd (createTracker e d config)) = trackers d @ [row]
            \<and> t_is_public row = Some True))
   \<and> (\<forall>row. fst (createTracker e d config) = Returns (Success (Some row)) \<longrightarrow>
          t_is_public row = Some True
          \<and> row \<in> set (trackers (snd (createTracker e d config))))"
proof (intro conjI allI impI)
  show "trackers (snd (createTracker e d config)) = trackers d
      \<or> (\<exists>row. trackers (snd (createTracker e d config)) = trackers d @ [row]
            \<and> t_is_public row = Some True)"
    using createTracker_payload [of e d config]
    by (simp add: createTracker_def try_catch_db_snd)
next
  fix row
  assume "fst (createTracker e d config) = Returns (Success (Some row))"
  then have "fst (createTracker_body e d config) = Returns (Success (Some row))"
    by (auto simp: createTracker_def try_catch_db_def intro: try_catch_returns)
  from createTracker_returned [OF this]
  show "t_is_public row = Some True" "row \<in> set (trackers (snd (createTracker e d config)))"
    by (simp_all add: createTracker_def try_catch_db_snd)
qed

lemma example_createTracker:
  "createTracker (example_env (Content None) (SearchData None)) empty_db example_config =
     (Returns (Success (Some
        \<lparr> t_id = 1, t_name = Some (JStr ''Track AI tools''),
          t_description = Some (JStr ''Track AI tools''), t_prompt = JStr ''Track AI tools'',
          t_config = Some (JObj [(''queries'', JArr [JStr ''Track AI tools'']),
                                 (''platforms'', JArr [JStr ''web''])]),
          t_sources = Some (JArr [JStr ''web'']), t_is_public = Some True,
          t_created_at = 100, t_last_run_at = None \<rparr>)),
      \<lparr> trackers =
          [\<lparr> t_id = 1, t_name = Some (JStr ''Track AI tools''),
             t_description = Some (JStr ''Track AI tools''), t_prompt = JStr ''Track AI tools'',
             t_config = Some (JObj [(''queries'', JArr [JStr ''Track AI tools'']),
                                    (''platforms'', JArr [JStr ''web''])]),
             t_sources = Some (JArr [JStr ''web'']), t_is_public = Some True,
             t_created_at = 100, t_last_run_at = None \<rparr>],
        tracker_runs = [], tracker_results = [] \<rparr>)"
  by code_simp

text \<open>A configuration with \<open>isPublic: false\<close> gives a public tracker.\<close>

theorem createTracker_always_public_witness:
  "c_isPublic example_config = Some False
   \<and> (\<exists>row. fst (createTracker example_env_ok empty_db example_config) =
               Returns (Success (Some row))
             \<and> t_is_public row = Some True
             \<and> trackers (snd (createTracker example_env_ok empty_db example_config)) = [row])"
proof -
  have priv: "c_isPublic example_config = Some False"
    by (simp add: example_config_def)
  obtain row where row: "fst (createTracker example_env_ok empty_db example_config) =
      Returns (Success (Some row))"
    and all: "trackers (snd (createTracker example_env_ok empty_db example_config)) = [row]"
    using example_createTracker by (simp add: example_env_ok_def)
  from createTracker_always_public [of example_env_ok empty_db example_config] row
  have "t_is_public row = Some True" by blast
  with priv row all show ?thesis by blast
qed

text \<open>
  C8. A creation request whose prompt is missing or falsy (the empty string among it)
  is answered with status 400 and the error \<open>Prompt is required\<close>, and the database is
  as it was: no tracker and no run has been created. A body that is \<open>null\<close> or cannot be
  read is answered with status 500, the database again untouched.
\<close>

theorem POST_rejects_missing_prompt:
  "(\<not> truthy_opt (field b ''prompt'') \<and> b \<noteq> JNull \<longrightarrow>
      POST e d (Some b) =
        (Returns \<lparr>status = 400, body = ErrorBody ''Prompt is required''\<rparr>, d))
   \<and> POST e d (Some JNull) =
        (Returns \<lparr>status = 500, body = ErrorBody ''Failed to create tracker''\<rparr>, d)
   \<and> POST e d None =
        (Returns \<lparr>status = 500, body = ErrorBody ''Failed to create tracker''\<rparr>, d)"
  by (simp add: POST_def POST_body_def try_catch_db_def try_catch_def)

text \<open>An empty prompt and a missing prompt.\<close>

theorem POST_rejects_missing_prompt_witness:
  "\<not> truthy_opt (field blank_request ''prompt'')
   \<and> blank_request \<noteq> JNull
   \<and> POST example_env_ok empty_db (Some blank_request) =
        (Returns \<lparr>status = 400, body = ErrorBody ''Prompt is required''\<rparr>, empty_db)
   \<and> \<not> truthy_opt (field (JObj [(''name'', JStr ''AI'')]) ''prompt'')
   \<and> POST example_env_ok empty_db (Some (JObj [(''name'', JStr ''AI'')])) =
        (Returns \<lparr>status = 400, body = ErrorBody ''Prompt is required''\<rparr>, empty_db)"
proof -
  have a: "\<not> truthy_opt (field blank_request ''prompt'')" "blank_request \<noteq> JNull"
    by (simp_all add: truthy_opt_def blank_request_def)
  have b: "\<not> truthy_opt (field (JObj [(''name'', JStr ''AI'')]) ''prompt'')"
    by (simp add: truthy_opt_def)
  from POST_rejects_missing_prompt [of blank_request example_env_ok empty_db]
       POST_rejects_missing_prompt [of "JObj [(''name'', JStr ''AI'')]" example_env_ok empty_db]
       a b
  show ?thesis by simp
qed

lemma createTracker_body_success:
  "fst (createTracker_body e d config) = Returns v \<Longrightarrow> success v"
  by (auto simp: createTracker_body_def Let_def success_def
      split: outcome.splits option.splits if_splits)

lemma run_steps_success:
  "fst (run_steps e d trackerId t r) = Returns v \<Longrightarrow> success v"
  by (auto simp: run_steps_def Let_def success_def split: outcome.splits if_splits)

lemma runTracker_body_success:
  "fst (runTracker_body e d trackerId) = Returns v \<Longrightarrow> success v"
  by (auto simp: runTracker_body_def Let_def run_steps_success
      split: outcome.splits option.splits prod.splits)

lemma getTrackerWithResults_body_success:
  "getTrackerWithResults_body e d trackerId = Returns v \<Longrightarrow> success v"
  by (auto simp: getTrackerWithResults_body_def and_then_def success_def
      split: outcome.splits option.splits)

lemma getPublicTrackers_body_success:
  "getPublicTrackers_body e d = Returns v \<Longrightarrow> success v"
  by (auto simp: getPublicTrackers_body_def and_then_def success_def
      split: outcome.splits option.splits)

lemma search_body_success: "search_body e n query = Returns v \<Longrightarrow> success v"
  by (auto simp: search_body_def success_def split: search_response.splits)

lemma scrapeUrl_body_success: "scrapeUrl_body e u = Returns v \<Longrightarrow> success v"
  by (auto simp: scrapeUrl_body_def success_def split: scrape_response.splits)

lemma try_catch_reports:
  "(\<And>v. m = Returns v \<Longrightarrow> success v) \<Longrightarrow>
     reports m fallback (try_catch m (\<lambda>x. Returns (Failure (message_or x fallback))))"
  by (cases m) (simp_all add: reports_def try_catch_def)


section \<open>Totality of the public operations\<close>

text \<open>
  C10, as stated, fails for a failure that the operation recovers by design: the
  search inside \<open>runTracker\<close> fails, and \<open>search\<close> itself reports it with
  \<open>success: false\<close>, but \<open>runTracker\<close> counts it as zero results and answers
  \<open>success: true\<close>.
\<close>

theorem recovered_failure_counterexample:
  "search sources_down_env 0 (JStr ''Track AI tools'') = Returns (Failure ''timeout'')
   \<and> fst (runTracker sources_down_env one_tracker_db 1) =
       Returns (Success \<lparr>run_results = JArr [], runId = 1\<rparr>)"
  by code_simp

text \<open>
  C10, amended. \<open>createTracker\<close>, \<open>runTracker\<close>, \<open>getTrackerWithResults\<close>,
  \<open>getPublicTrackers\<close>, \<open>search\<close> and \<open>scrapeUrl\<close> never throw: each returns a result
  object. When the body inside \<open>try\<close> throws, the result is \<open>success: false\<close> with the
  message of the error (or the operation's fixed text when the thrown value is no
  \<open>Error\<close>); when the body returns, the result is the body's and has \<open>success: true\<close>.
  A failure that the body recovers does not make it throw.
\<close>

theorem operations_never_throw:
  "reports (fst (createTracker_body e d config)) ''Failed to create tracker''
     (fst (createTracker e d config))
   \<and> reports (fst (runTracker_body e d trackerId)) ''Failed to run tracker''
       (fst (runTracker e d trackerId))
   \<and> reports (getTrackerWithResults_body e d trackerId) ''Failed to get tracker''
       (getTrackerWithResults e d trackerId)
   \<and> reports (getPublicTrackers_body e d) ''Failed to get trackers'' (getPublicTrackers e d)
   \<and> reports (search_body e n query) ''Search failed'' (search e n query)
   \<and> reports (scrapeUrl_body e u) ''Failed to scrape URL'' (scrapeUrl e u)"
  unfolding createTracker_def runTracker_def getTrackerWithResults_def getPublicTrackers_def
    search_def scrapeUrl_def try_catch_db_def fst_conv
  by (intro conjI try_catch_reports createTracker_body_success runTracker_body_success
      getTrackerWithResults_body_success getPublicTrackers_body_success search_body_success
      scrapeUrl_body_success)

lemma faulty_bodies:
  "fst (createTracker_body faulty_env empty_db example_config) =
     Throws (JsError ''connection refused'')"
  "fst (runTracker_body faulty_env empty_db 7) = Throws (JsError ''Tracker not found'')"
  "getTrackerWithResults_body faulty_env empty_db 7 = Throws (JsError ''connection refused'')"
  "getPublicTrackers_body faulty_env empty_db = Throws (JsError ''connection refused'')"
  "search_body faulty_env 0 (JStr ''AI tools'') = Throws (JsError ''timeout'')"
  "scrapeUrl_body faulty_env ''https://a.example'' = Throws (JsError ''scrape down'')"
  by code_simp+

text \<open>With a database that answers every call with an error and clients that fail.\<close>

theorem operations_never_throw_witness:
  "fst (createTracker faulty_env empty_db example_config) =
     Returns (Failure ''connection refused'')
   \<and> fst (runTracker faulty_env empty_db 7) = Returns (Failure ''Tracker not found'')
   \<and> getTrackerWithResults faulty_env empty_db 7 = Returns (Failure ''connection refused'')
   \<and> getPublicTrackers faulty_env empty_db = Returns (Failure ''connection refused'')
   \<and> search faulty_env 0 (JStr ''AI tools'') = Returns (Failure ''timeout'')
   \<and> scrapeUrl faulty_env ''https://a.example'' = Returns (Failure ''scrape down'')"
  using operations_never_throw
          [of faulty_env empty_db example_config 7 0 "JStr ''AI tools''" "''https://a.example''"]
  by (simp add: faulty_bodies reports_def message_or_def)


section \<open>Running a tracker\<close>

lemma foldr_max_ge: "i \<in> set ids \<Longrightarrow> i \<le> foldr max ids (0::nat)"
  by (induction ids) auto

lemma fresh_id_new: "fresh_id ids \<notin> set ids"
  using foldr_max_ge [of "fresh_id ids" ids] by (auto simp: fresh_id_def)

lemma TrackerResult_of_not_null: "TrackerResult_of item \<noteq> JNull" "JNull \<noteq> TrackerResult_of item"
  by (simp_all add: TrackerResult_of_def obj_def)

lemma searchWithFirecrawl_value:
  "searchWithFirecrawl e n q =
     Returns (case client_search e n q of
                SearchFails x \<Rightarrow> []
              | SearchData items \<Rightarrow>
                  map TrackerResult_of
                    (map (\<lambda>item. \<lparr> it_title = fi_title item, it_url = fi_url item,
                                   it_content = fi_markdown item,
                                   it_screenshot = fi_screenshot item,
                                   it_score = fi_score item \<rparr>)
                       (or_empty items)))"
  by (simp add: searchWithFirecrawl_def search_def search_body_def try_catch_def and_then_def
      split: search_response.splits)

lemma searchWithFirecrawl_total:
  "\<exists>found. searchWithFirecrawl e n q = Returns found \<and> JNull \<notin> set found"
  by (auto simp: searchWithFirecrawl_value TrackerResult_of_not_null
      split: search_response.splits)

lemma searchWithFirecrawl_fails:
  "client_search e n q = SearchFails x \<Longrightarrow> searchWithFirecrawl e n q = Returns []"
  by (simp add: searchWithFirecrawl_value)

lemma collect_total: "\<exists>found. collect e n qs = Returns found \<and> JNull \<notin> set found"
proof (induction qs arbitrary: n)
  case Nil
  show ?case by simp
next
  case (Cons q qs)
  from searchWithFirecrawl_total [of e n q] obtain a
    where a: "searchWithFirecrawl e n q = Returns a" "JNull \<notin> set a" by blast
  from Cons.IH [of "Suc n"] obtain b
    where b: "collect e (Suc n) qs = Returns b" "JNull \<notin> set b" by blast
  from a b show ?case by (simp add: and_then_def)
qed

lemma collect_all_fail:
  "(\<And>n q. \<exists>x. client_search e n q = SearchFails x) \<Longrightarrow> collect e n qs = Returns []"
proof (induction qs arbitrary: n)
  case Nil
  show ?case by simp
next
  case (Cons q qs)
  from Cons.prems [of n q] obtain x where "client_search e n q = SearchFails x" by blast
  then have "searchWithFirecrawl e n q = Returns []" by (rule searchWithFirecrawl_fails)
  with Cons.IH [OF Cons.prems, of "Suc n"] show ?case by (simp add: and_then_def)
qed

lemma rows_of_total:
  "JNull \<notin> set xs \<Longrightarrow> rows_of rid tid xs = Returns (map (row_of rid tid) xs)"
  by (induction xs) (auto simp: and_then_def)

lemma enrichResults_fallback:
  "enrich_completion e p (take 10 rs) = Content (Some text) \<Longrightarrow> text \<noteq> [] \<Longrightarrow>
     JSON_parse e text = None \<Longrightarrow> enrichResults e rs p = Returns (JArr rs)"
  by (simp add: enrichResults_def enrichResults_body_def try_catch_def truthy_str_def
      or_blank_def)

lemma runTracker_ok:
  assumes nofault: "db_fault e = (\<lambda>call. None)"
    and tracker: "filter (\<lambda>t. t_id t = tid) (trackers d) = [t]"
    and iter: "iterate (queries_of t) = Returns qs"
    and found: "collect e 0 qs = Returns found"
    and enriched: "enrichResults e found (t_prompt t) = Returns (JArr xs)"
    and nonnull: "JNull \<notin> set xs"
  shows "fst (runTracker e d tid) =
           Returns (Success \<lparr>run_results = JArr xs,
                             runId = fresh_id (map run_id (tracker_runs d))\<rparr>)"
    and "tracker_runs (snd (runTracker e d tid)) =
           tracker_runs d @ [completed_run e d tid (length xs)]"
    and "tracker_results (snd (runTracker e d tid)) =
           tracker_results d @ map (row_of (fresh_id (map run_id (tracker_runs d))) tid) xs"
proof -
  let ?rid = "fresh_id (map run_id (tracker_runs d))"
  let ?r0 = "\<lparr> run_id = ?rid, run_tracker_id = tid, run_status = Running, run_error = None,
               run_metadata = None, run_started_at = now e, run_completed_at = None \<rparr>"
  let ?d1 = "d\<lparr>tracker_runs := tracker_runs d @ [?r0]\<rparr>"
  have start: "runTracker_body e d tid = run_steps e ?d1 tid t ?r0"
    using nofault tracker
    by (simp add: runTracker_body_def db_request_def select_tracker_def single_def
        insert_run_def Let_def)
  have fresh: "\<And>r. r \<in> set (tracker_runs d) \<Longrightarrow> run_id r \<noteq> ?rid"
    using fresh_id_new [of "map run_id (tracker_runs d)"] by (metis image_eqI set_map)
  have old: "map (\<lambda>r. if run_id r = ?rid then F r else r) (tracker_runs d) = tracker_runs d" for F
    using fresh by (intro map_idI) simp
  have steps: "run_steps e ?d1 tid t ?r0 =
      (Returns (Success \<lparr>run_results = JArr xs, runId = ?rid\<rparr>),
       ?d1\<lparr> tracker_results := tracker_results d @ map (row_of ?rid tid) xs,
             tracker_runs := tracker_runs d @ [completed_run e d tid (length xs)],
             trackers := map (\<lambda>t. if t_id t = tid then t\<lparr>t_last_run_at := Some (now e)\<rparr> else t)
                           (trackers d) \<rparr>)"
    using nofault iter found enriched nonnull
    by (cases "xs = []")
       (simp_all add: run_steps_def and_then_def gt_zero_def resultsToInsert_def rows_of_total
          db_do_def db_request_def insert_results_def update_run_def update_tracker_def Let_def
          old completed_run_def obj_def map_filter_simps)
  show "fst (runTracker e d tid) = Returns (Success \<lparr>run_results = JArr xs, runId = ?rid\<rparr>)"
    by (simp add: runTracker_def try_catch_db_def try_catch_def start steps)
  show "tracker_runs (snd (runTracker e d tid)) =
          tracker_runs d @ [completed_run e d tid (length xs)]"
    by (simp add: runTracker_def try_catch_db_def start steps)
  show "tracker_results (snd (runTracker e d tid)) =
          tracker_results d @ map (row_of ?rid tid) xs"
    by (simp add: runTracker_def try_catch_db_def start steps)
qed


section \<open>Enrichment fallback, failing sources and the status of a run\<close>

lemma db_do_state:
  "snd (db_do e call d run) = d \<or> snd (db_do e call d run) = snd (run d)"
  by (simp add: db_do_def db_request_def split: option.splits db_fault.splits)

lemma status_after_update:
  "r \<in> set (tracker_runs (snd (update_run e rid enriched d))) \<Longrightarrow>
     r \<in> set (tracker_runs d) \<or> run_status r = Completed"
  by (auto simp: update_run_def)

lemma runs_after_insert_results:
  "tracker_runs (snd (insert_results rows d)) = tracker_runs d"
  by (simp add: insert_results_def)

lemma runs_after_update_tracker:
  "tracker_runs (snd (update_tracker e tid d)) = tracker_runs d"
  by (simp add: update_tracker_def)

lemma run_steps_status:
  assumes "r \<in> set (tracker_runs (snd (run_steps e d tid t run)))"
  shows "r \<in> set (tracker_runs d) \<or> run_status r = Completed"
proof -
  have saved: "tracker_runs (snd (db_do e InsertResults d (insert_results rows))) = tracker_runs d"
    for rows
    using db_do_state [of e InsertResults d "insert_results rows"]
    by (auto simp: runs_after_insert_results)
  have marked: "r \<in> set (tracker_runs (snd (db_do e UpdateRun d' (update_run e rid v)))) \<Longrightarrow>
      r \<in> set (tracker_runs d') \<or> run_status r = Completed" for d' rid v
    using db_do_state [of e UpdateRun d' "update_run e rid v"] status_after_update [of r e rid v d']
    by auto
  have touched: "tracker_runs (snd (db_do e UpdateTracker d' (update_tracker e tid))) = tracker_runs d'"
    for d'
    using db_do_state [of e UpdateTracker d' "update_tracker e tid"]
    by (auto simp: runs_after_update_tracker)
  from assms show ?thesis
    by (auto simp: run_steps_def Let_def saved touched
        split: outcome.splits if_splits dest!: marked)
qed

text \<open>
  Whatever happens, a run record that \<open>runTracker\<close> creates or changes has the status
  \<open>running\<close> or \<open>completed\<close>: no path writes \<open>failed\<close> (or \<open>pending\<close>).
\<close>

lemma runTracker_never_marks_failed:
  assumes "r \<in> set (tracker_runs (snd (runTracker e d tid)))"
  shows "r \<in> set (tracker_runs d) \<or> run_status r = Running \<or> run_status r = Completed"
proof -
  let ?r0 = "\<lparr> run_id = fresh_id (map run_id (tracker_runs d)), run_tracker_id = tid,
               run_status = Running, run_error = None, run_metadata = None,
               run_started_at = now e, run_completed_at = None \<rparr>"
  let ?d1 = "d\<lparr>tracker_runs := tracker_runs d @ [?r0]\<rparr>"
  have created: "snd (db_request e InsertRun d (insert_run e tid)) = d \<or>
      snd (db_request e InsertRun d (insert_run e tid)) = ?d1"
    by (simp add: db_request_def insert_run_def Let_def split: option.splits db_fault.splits)
  have body: "r \<in> set (tracker_runs (snd (runTracker_body e d tid))) \<Longrightarrow>
      r \<in> set (tracker_runs d) \<or> r \<in> set (tracker_runs ?d1) \<or> run_status r = Completed"
    using created
    by (auto simp: runTracker_body_def Let_def
        split: outcome.splits option.splits prod.splits dest!: run_steps_status)
  from assms body show ?thesis
    by (auto simp: runTracker_def try_catch_db_def)
qed

text \<open>
  C2 at a failing input. The enrichment call answers \<open>{"results":"none"}\<close>: the string
  is taken for the enriched results, \<open>.map\<close> on it throws after the run record was
  created, and \<open>runTracker\<close> answers \<open>success: false\<close>. The run record is left with
  status \<open>running\<close> and without error text; a status \<open>failed\<close> is never written.
\<close>

theorem runTracker_error_leaves_run_running:
  "fst (runTracker stringy_env one_tracker_db 1) =
     Returns (Failure ''TypeError: enrichedResults.map is not a function'')
   \<and> map run_status (tracker_runs (snd (runTracker stringy_env one_tracker_db 1))) = [Running]
   \<and> map run_error (tracker_runs (snd (runTracker stringy_env one_tracker_db 1))) = [None]"
  by code_simp

text \<open>
  C3, as stated, fails for the empty text, which is no valid JSON: the code replaces
  a falsy content with \<open>{"results":[]}\<close>, and the enricher returns the empty list
  instead of the items that it was given.
\<close>

theorem enrichResults_empty_content_counterexample:
  "enrich_completion empty_content_env (JStr ''Track AI tools'') [example_object] = Content (Some [])
   \<and> JSON_parse empty_content_env [] = None
   \<and> enrichResults empty_content_env [example_object] (JStr ''Track AI tools'') = Returns (JArr [])"
  by code_simp

text \<open>
  C3, amended. For every item list, when the completion answers with a non-empty text
  that is no valid JSON, \<open>enrichResults\<close> returns exactly the list that it was given.
  In a run whose tracker exists, whose queries can be iterated and whose database
  calls succeed, \<open>runTracker\<close> then answers \<open>success: true\<close> with the collected items,
  stores one row for each of them and leaves the run record with status \<open>completed\<close>.
\<close>

theorem invalid_json_keeps_results:
  "(enrich_completion e p (take 10 rs) = Content (Some text) \<and> text \<noteq> [] \<and>
    JSON_parse e text = None \<longrightarrow>
      enrichResults e rs p = Returns (JArr rs))
   \<and> (db_fault e = (\<lambda>call. None) \<and> filter (\<lambda>t. t_id t = tid) (trackers d) = [t] \<and>
       iterate (queries_of t) = Returns qs \<and> collect e 0 qs = Returns found \<and>
       enrich_completion e (t_prompt t) (take 10 found) = Content (Some text) \<and> text \<noteq> [] \<and>
       JSON_parse e text = None \<longrightarrow>
         fst (runTracker e d tid) =
           Returns (Success \<lparr>run_results = JArr found,
                             runId = fresh_id (map run_id (tracker_runs d))\<rparr>)
         \<and> tracker_runs (snd (runTracker e d tid)) =
             tracker_runs d @ [completed_run e d tid (length found)]
         \<and> tracker_results (snd (runTracker e d tid)) =
             tracker_results d @ map (row_of (fresh_id (map run_id (tracker_runs d))) tid) found)"
proof (intro conjI impI)
  assume "enrich_completion e p (take 10 rs) = Content (Some text) \<and> text \<noteq> [] \<and>
    JSON_parse e text = None"
  then show "enrichResults e rs p = Returns (JArr rs)"
    by (simp add: enrichResults_fallback)
next
  assume a: "db_fault e = (\<lambda>call. None) \<and> filter (\<lambda>t. t_id t = tid) (trackers d) = [t] \<and>
       iterate (queries_of t) = Returns qs \<and> collect e 0 qs = Returns found \<and>
       enrich_completion e (t_prompt t) (take 10 found) = Content (Some text) \<and> text \<noteq> [] \<and>
       JSON_parse e text = None"
  then have enriched: "enrichResults e found (t_prompt t) = Returns (JArr found)"
    by (simp add: enrichResults_fallback)
  from a collect_total [of e 0 qs] have nonnull: "JNull \<notin> set found" by auto
  from a have nofault: "db_fault e = (\<lambda>call. None)"
    and tracker: "filter (\<lambda>t. t_id t = tid) (trackers d) = [t]"
    and iter: "iterate (queries_of t) = Returns qs"
    and found: "collect e 0 qs = Returns found" by simp_all
  show "fst (runTracker e d tid) =
      Returns (Success \<lparr>run_results = JArr found, runId = fresh_id (map run_id (tracker_runs d))\<rparr>)"
    by (rule runTracker_ok(1) [OF nofault tracker iter found enriched nonnull])
  show "tracker_runs (snd (runTracker e d tid)) =
      tracker_runs d @ [completed_run e d tid (length found)]"
    by (rule runTracker_ok(2) [OF nofault tracker iter found enriched nonnull])
  show "tracker_results (snd (runTracker e d tid)) =
      tracker_results d @ map (row_of (fresh_id (map run_id (tracker_runs d))) tid) found"
    by (rule runTracker_ok(3) [OF nofault tracker iter found enriched nonnull])
qed

lemma prose_env_facts:
  "db_fault prose_env = (\<lambda>call. None)"
  "filter (\<lambda>t. t_id t = 1) (trackers one_tracker_db) = [example_tracker]"
  "iterate (queries_of example_tracker) = Returns [JStr ''Track AI tools'']"
  "collect prose_env 0 [JStr ''Track AI tools''] = Returns [example_object]"
  "enrich_completion prose_env (t_prompt example_tracker) (take 10 [example_object]) =
     Content (Some ''Sorry, no JSON today'')"
  "JSON_parse prose_env ''Sorry, no JSON today'' = None"
  "fresh_id (map run_id (tracker_runs one_tracker_db)) = 1"
  by (simp add: prose_env_def example_env_def, code_simp+)

text \<open>The completion answers with a sentence of prose.\<close>

theorem invalid_json_keeps_results_witness:
  "enrich_completion prose_env (t_prompt example_tracker) (take 10 [example_object]) =
     Content (Some ''Sorry, no JSON today'')
   \<and> JSON_parse prose_env ''Sorry, no JSON today'' = None
   \<and> enrichResults prose_env [example_object] (t_prompt example_tracker) =
       Returns (JArr [example_object])
   \<and> collect prose_env 0 [JStr ''Track AI tools''] = Returns [example_object]
   \<and> fst (runTracker prose_env one_tracker_db 1) =
       Returns (Success \<lparr>run_results = JArr [example_object], runId = 1\<rparr>)
   \<and> map run_status (tracker_runs (snd (runTracker prose_env one_tracker_db 1))) = [Completed]"
proof -
  have ne: "''Sorry, no JSON today'' \<noteq> []" by simp
  from invalid_json_keeps_results
         [of prose_env "t_prompt example_tracker" "[example_object]" "''Sorry, no JSON today''"
             1 one_tracker_db example_tracker "[JStr ''Track AI tools'']" "[example_object]"]
       prose_env_facts ne
  have "enrichResults prose_env [example_object] (t_prompt example_tracker) =
          Returns (JArr [example_object])"
    and "fst (runTracker prose_env one_tracker_db 1) =
          Returns (Success \<lparr>run_results = JArr [example_object], runId = 1\<rparr>)"
    and "tracker_runs (snd (runTracker prose_env one_tracker_db 1)) =
          tracker_runs one_tracker_db @ [completed_run prose_env one_tracker_db 1 (length [example_object])]"
    by simp_all
  with prose_env_facts show ?thesis
    by (simp add: one_tracker_db_def completed_run_def)
qed

text \<open>
  C5. A search that fails gives no results and no exception, so the loop over the
  queries always returns. When every search fails, in a run whose tracker exists,
  whose queries can be iterated and whose database calls succeed, \<open>runTracker\<close> answers
  \<open>success: true\<close> with zero results, stores no result row and leaves the run record
  with status \<open>completed\<close>.
\<close>

theorem failing_sources_still_complete:
  "(client_search e n q = SearchFails x \<longrightarrow> searchWithFirecrawl e n q = Returns [])
   \<and> (\<exists>found. collect e n qs = Returns found)
   \<and> (db_fault e = (\<lambda>call. None) \<and> filter (\<lambda>t. t_id t = tid) (trackers d) = [t] \<and>
       iterate (queries_of t) = Returns qs \<and> (\<forall>n q. \<exists>x. client_search e n q = SearchFails x) \<longrightarrow>
         fst (runTracker e d tid) =
           Returns (Success \<lparr>run_results = JArr [],
                             runId = fresh_id (map run_id (tracker_runs d))\<rparr>)
         \<and> tracker_runs (snd (runTracker e d tid)) = tracker_runs d @ [completed_run e d tid 0]
         \<and> tracker_results (snd (runTracker e d tid)) = tracker_results d)"
proof (intro conjI impI)
  assume "client_search e n q = SearchFails x"
  then show "searchWithFirecrawl e n q = Returns []" by (rule searchWithFirecrawl_fails)
next
  from collect_total [of e n qs] show "\<exists>found. collect e n qs = Returns found" by blast
next
  assume a: "db_fault e = (\<lambda>call. None) \<and> filter (\<lambda>t. t_id t = tid) (trackers d) = [t] \<and>
       iterate (queries_of t) = Returns qs \<and> (\<forall>n q. \<exists>x. client_search e n q = SearchFails x)"
  then have nofault: "db_fault e = (\<lambda>call. None)"
    and tracker: "filter (\<lambda>t. t_id t = tid) (trackers d) = [t]"
    and iter: "iterate (queries_of t) = Returns qs" by simp_all
  from a have found: "collect e 0 qs = Returns []" by (intro collect_all_fail) blast
  have enriched: "enrichResults e [] (t_prompt t) = Returns (JArr [])"
    by (simp add: enrichResults_def)
  have nonnull: "JNull \<notin> set []" by simp
  show "fst (runTracker e d tid) =
      Returns (Success \<lparr>run_results = JArr [], runId = fresh_id (map run_id (tracker_runs d))\<rparr>)"
    by (rule runTracker_ok(1) [OF nofault tracker iter found enriched nonnull])
  show "tracker_runs (snd (runTracker e d tid)) = tracker_runs d @ [completed_run e d tid 0]"
    using runTracker_ok(2) [OF nofault tracker iter found enriched nonnull] by simp
  show "tracker_results (snd (runTracker e d tid)) = tracker_results d"
    using runTracker_ok(3) [OF nofault tracker iter found enriched nonnull] by simp
qed

lemma sources_down_facts:
  "db_fault sources_down_env = (\<lambda>call. None)"
  "client_search sources_down_env n q = SearchFails (JsError ''timeout'')"
  by (simp_all add: sources_down_env_def example_env_def)

text \<open>Every search times out.\<close>

theorem failing_sources_still_complete_witness:
  "client_search sources_down_env 0 (JStr ''Track AI tools'') = SearchFails (JsError ''timeout'')
   \<and> searchWithFirecrawl sources_down_env 0 (JStr ''Track AI tools'') = Returns []
   \<and> db_fault sources_down_env = (\<lambda>call. None)
   \<and> filter (\<lambda>t. t_id t = 1) (trackers one_tracker_db) = [example_tracker]
   \<and> iterate (queries_of example_tracker) = Returns [JStr ''Track AI tools'']
   \<and> fst (runTracker sources_down_env one_tracker_db 1) =
       Returns (Success \<lparr>run_results = JArr [], runId = 1\<rparr>)
   \<and> map run_status (tracker_runs (snd (runTracker sources_down_env one_tracker_db 1))) =
       [Completed]
   \<and> tracker_results (snd (runTracker sources_down_env one_tracker_db 1)) = []"
proof -
  have all: "\<forall>n q. \<exists>x. client_search sources_down_env n q = SearchFails x"
    by (simp add: sources_down_facts)
  from failing_sources_still_complete
         [of sources_down_env 0 "JStr ''Track AI tools''" "JsError ''timeout''"
             "[JStr ''Track AI tools'']" 1 one_tracker_db example_tracker] all
       sources_down_facts prose_env_facts(2,3,7)
  show ?thesis
    by (simp add: one_tracker_db_def completed_run_def)
qed


section \<open>Reading a tracker with its latest results\<close>

lemma sorted_score_desc: "sorted_wrt score_desc (order_by score_desc rows)"
  unfolding order_by_def
  by (rule sorted_stable_sort [where A = UNIV])
     (auto simp: score_desc_def split: option.splits)

lemma sorted_started_desc:
  "sorted_wrt (\<lambda>a b. run_started_at b \<le> run_started_at a)
     (order_by (\<lambda>a b. run_started_at b \<le> run_started_at a) runs)"
  unfolding order_by_def
  by (rule sorted_stable_sort [where A = UNIV]) auto

lemma latest_of_sorted:
  assumes "take 1 (order_by (\<lambda>a b. run_started_at b \<le> run_started_at a) runs) = [r]"
  shows "r \<in> set runs \<and> (\<forall>r' \<in> set runs. run_started_at r' \<le> run_started_at r)"
proof -
  let ?s = "order_by (\<lambda>a b. run_started_at b \<le> run_started_at a) runs"
  from assms obtain rest where s: "?s = r # rest" by (cases ?s) simp_all
  have set: "set ?s = set runs" by (simp add: order_by_def set_stable_sort)
  from sorted_started_desc [of runs] s
  have "\<forall>r' \<in> set rest. run_started_at r' \<le> run_started_at r" by simp
  with s set show ?thesis by (metis list.set_intros(1) order_refl set_ConsD)
qed

lemma latest_none:
  assumes "take 1 (order_by ahead runs) = []"
  shows "runs = []"
proof -
  from assms have "order_by ahead runs = []" by (cases "order_by ahead runs") simp_all
  then have "set runs = {}" using set_stable_sort [of ahead runs] by (simp add: order_by_def)
  then show ?thesis by simp
qed

lemma take1_cases: "take 1 xs = [] \<or> (\<exists>x. take 1 xs = [x])"
  by (cases xs) simp_all

text \<open>
  C7, as stated, fails: the latest run of the tracker is still \<open>running\<close> and has no
  results, and \<open>getTrackerWithResults\<close> returns its (empty) results, not the result of
  the most recent completed run.
\<close>

theorem latest_results_counterexample:
  "map run_status (tracker_runs stale_db) = [Completed, Running]
   \<and> filter (\<lambda>r. res_run_id r = run_id old_run) (tracker_results stale_db) = [old_result]
   \<and> getTrackerWithResults example_env_ok stale_db 1 =
       Returns (Success \<lparr>tracker = Some example_tracker, latestRun = Some stuck_run,
                         view_results = []\<rparr>)"
  by code_simp

text \<open>
  C7, amended. When the tracker exists and the database calls succeed, the results
  that \<open>getTrackerWithResults\<close> returns are exactly the result rows of the tracker's run
  with the latest start, whatever the status of that run, in descending order of score
  (rows without score first); they are empty when the tracker has no run.
\<close>

theorem latest_results_of_latest_run:
  "db_fault e = (\<lambda>call. None) \<and> filter (\<lambda>t. t_id t = tid) (trackers d) = [t] \<longrightarrow>
     (\<exists>v. getTrackerWithResults e d tid = Returns (Success v) \<and> tracker v = Some t \<and>
        (case latestRun v of
           None \<Rightarrow> filter (\<lambda>r. run_tracker_id r = tid) (tracker_runs d) = [] \<and> view_results v = []
         | Some r \<Rightarrow>
             r \<in> set (tracker_runs d) \<and> run_tracker_id r = tid \<and>
             (\<forall>r' \<in> set (tracker_runs d).
                run_tracker_id r' = tid \<longrightarrow> run_started_at r' \<le> run_started_at r) \<and>
             mset (view_results v) =
               mset (filter (\<lambda>x. res_run_id x = run_id r) (tracker_results d)) \<and>
             sorted_wrt score_desc (view_results v)))"
proof (intro impI)
  assume a: "db_fault e = (\<lambda>call. None) \<and> filter (\<lambda>t. t_id t = tid) (trackers d) = [t]"
  let ?runs = "filter (\<lambda>r. run_tracker_id r = tid) (tracker_runs d)"
  let ?top = "take 1 (order_by (\<lambda>a b. run_started_at b \<le> run_started_at a) ?runs)"
  from take1_cases [of "order_by (\<lambda>a b. run_started_at b \<le> run_started_at a) ?runs"]
  show "\<exists>v. getTrackerWithResults e d tid = Returns (Success v) \<and> tracker v = Some t \<and>
        (case latestRun v of
           None \<Rightarrow> ?runs = [] \<and> view_results v = []
         | Some r \<Rightarrow>
             r \<in> set (tracker_runs d) \<and> run_tracker_id r = tid \<and>
             (\<forall>r' \<in> set (tracker_runs d).
                run_tracker_id r' = tid \<longrightarrow> run_started_at r' \<le> run_started_at r) \<and>
             mset (view_results v) =
               mset (filter (\<lambda>x. res_run_id x = run_id r) (tracker_results d)) \<and>
             sorted_wrt score_desc (view_results v))"
  proof
    assume none: "?top = []"
    then have "?runs = []" by (rule latest_none)
    with a none show ?thesis
      by (simp add: getTrackerWithResults_def getTrackerWithResults_body_def try_catch_def
          and_then_def db_request_def select_tracker_def select_latest_run_def single_def)
  next
    assume "\<exists>r. ?top = [r]"
    then obtain r where top: "?top = [r]" by blast
    from latest_of_sorted [OF top]
    have r: "r \<in> set (tracker_runs d)" "run_tracker_id r = tid"
      "\<forall>r' \<in> set (tracker_runs d). run_tracker_id r' = tid \<longrightarrow> run_started_at r' \<le> run_started_at r"
      by auto
    have res: "getTrackerWithResults e d tid =
        Returns (Success \<lparr> tracker = Some t, latestRun = Some r,
                           view_results = order_by score_desc
                             (filter (\<lambda>x. res_run_id x = run_id r) (tracker_results d)) \<rparr>)"
      using a top
      by (simp add: getTrackerWithResults_def getTrackerWithResults_body_def try_catch_def
          and_then_def db_request_def select_tracker_def select_latest_run_def single_def
          select_results_def or_empty_def)
    have "mset (order_by score_desc (filter (\<lambda>x. res_run_id x = run_id r) (tracker_results d))) =
        mset (filter (\<lambda>x. res_run_id x = run_id r) (tracker_results d))"
      by (simp add: order_by_def mset_stable_sort)
    with r sorted_score_desc show ?thesis
      unfolding res by simp
  qed
qed

text \<open>The latest run is the one that is still \<open>running\<close>.\<close>

theorem latest_results_of_latest_run_witness:
  "db_fault example_env_ok = (\<lambda>call. None)
   \<and> filter (\<lambda>t. t_id t = 1) (trackers stale_db) = [example_tracker]
   \<and> (\<exists>v. getTrackerWithResults example_env_ok stale_db 1 = Returns (Success v)
         \<and> tracker v = Some example_tracker \<and> latestRun v = Some stuck_run
         \<and> run_status stuck_run = Running \<and> view_results v = [])"
proof -
  have f: "db_fault example_env_ok = (\<lambda>call. None)"
    by (simp add: example_env_ok_def example_env_def)
  have t: "filter (\<lambda>t. t_id t = 1) (trackers stale_db) = [example_tracker]"
    by code_simp
  have v: "getTrackerWithResults example_env_ok stale_db 1 =
       Returns (Success \<lparr>tracker = Some example_tracker, latestRun = Some stuck_run,
                         view_results = []\<rparr>)"
    by code_simp
  from latest_results_of_latest_run [of example_env_ok 1 stale_db example_tracker] f t
  obtain w where "getTrackerWithResults example_env_ok stale_db 1 = Returns (Success w)"
    by blast
  with v f t show ?thesis by (auto simp: stuck_run_def)
qed

end
